theory Spec2Isabelle
  imports Main
begin

section \<open>Date ranges and sorted range sets (dateRangeImpl.ts)\<close>

text \<open>
  A JavaScript \<open>Date\<close> is a mutable object holding a time value (milliseconds since the
  epoch).  The range functions only read time values through \<open>getTime()\<close>, so they are
  written over an arbitrary representation \<open>'d\<close> of Date objects together with the
  reading function \<open>gt\<close>.  At \<open>'d = int\<close> and \<open>gt = (\<lambda>x. x)\<close> they are functions on
  time values; over references into a store of Date objects, \<open>gt\<close> reads the store.

  \<open>DateRange = { start: Date; end?: Date }\<close>; the field \<open>end\<close> is named \<open>endDate\<close>.
\<close>

record 'd DateRange =
  start :: 'd
  endDate :: "'d option"

text \<open>The time values of a range.\<close>

definition rangeTimes :: "('d \<Rightarrow> int) \<Rightarrow> 'd DateRange \<Rightarrow> int DateRange" where
  "rangeTimes gt r = \<lparr>start = gt (start r), endDate = map_option gt (endDate r)\<rparr>"

text \<open>\<open>inDateRangeImpl(date, range)\<close>.\<close>

definition inDateRangeImpl :: "('d \<Rightarrow> int) \<Rightarrow> 'd \<Rightarrow> 'd DateRange \<Rightarrow> bool" where
  "inDateRangeImpl gt date rng =
     (gt date \<ge> gt (start rng) \<and>
      (case endDate rng of None \<Rightarrow> True | Some e \<Rightarrow> gt date < gt e))"

text \<open>
  \<open>_mergeSortedRanges\<close>: \<open>mergeLoop gt currentMerge rest\<close> is the \<open>for\<close> loop with the
  ranges still to visit; what the loop pushes on \<open>mergedRanges\<close> is what is consed here.
  The copy \<open>{ ...range }\<close> is shallow: the Date objects are shared with the input.
\<close>

fun mergeLoop :: "('d \<Rightarrow> int) \<Rightarrow> 'd DateRange \<Rightarrow> 'd DateRange list \<Rightarrow> 'd DateRange list" where
  "mergeLoop gt currentMerge [] = [currentMerge]"
| "mergeLoop gt currentMerge (nextRange # rest) =
     (if (case endDate currentMerge of None \<Rightarrow> True
          | Some ce \<Rightarrow> gt (start nextRange) \<le> gt ce)
      then
        (case endDate nextRange of
           None \<Rightarrow> mergeLoop gt (currentMerge\<lparr>endDate := None\<rparr>) rest
         | Some ne \<Rightarrow>
             (case endDate currentMerge of
                None \<Rightarrow> mergeLoop gt currentMerge rest
              | Some ce \<Rightarrow>
                  if gt ne > gt ce
                  then mergeLoop gt (currentMerge\<lparr>endDate := Some ne\<rparr>) rest
                  else mergeLoop gt currentMerge rest))
      else currentMerge # mergeLoop gt nextRange rest)"

definition mergeSortedRanges :: "('d \<Rightarrow> int) \<Rightarrow> 'd DateRange list \<Rightarrow> 'd DateRange list" where
  "mergeSortedRanges gt sortedRanges =
     (case sortedRanges of [] \<Rightarrow> [] | r # rest \<Rightarrow> mergeLoop gt r rest)"

text \<open>
  \<open>Array.prototype.sort\<close> with the comparator \<open>a.start.getTime() - b.start.getTime()\<close> is a
  stable sort by start time, as \<open>sort_key\<close> is.
\<close>

definition sortByStart :: "('d \<Rightarrow> int) \<Rightarrow> 'd DateRange list \<Rightarrow> 'd DateRange list" where
  "sortByStart gt ranges = sort_key (\<lambda>r. gt (start r)) ranges"

definition processRanges :: "('d \<Rightarrow> int) \<Rightarrow> 'd DateRange list \<Rightarrow> 'd DateRange list" where
  "processRanges gt ranges =
     (if ranges = [] then [] else mergeSortedRanges gt (sortByStart gt ranges))"

definition unionImpl :: "('d \<Rightarrow> int) \<Rightarrow> 'd DateRange list \<Rightarrow> 'd DateRange list \<Rightarrow> 'd DateRange list" where
  "unionImpl gt thisRanges otherRanges =
     (if thisRanges = [] then otherRanges
      else if otherRanges = [] then thisRanges
      else mergeSortedRanges gt (sortByStart gt (thisRanges @ otherRanges)))"

text \<open>
  \<open>intersectionImpl\<close>.  An absent end is \<open>Infinity\<close>; ends are compared as
  \<open>int option\<close> with \<open>None\<close> the largest.  The result holds the time values of the
  Date objects that the source creates with \<open>new Date(...)\<close>.
\<close>

fun endLess :: "int option \<Rightarrow> int option \<Rightarrow> bool" where
  "endLess (Some a) (Some b) = (a < b)"
| "endLess (Some a) None = True"
| "endLess None b = False"

fun endMin :: "int option \<Rightarrow> int option \<Rightarrow> int option" where
  "endMin (Some a) (Some b) = Some (min a b)"
| "endMin (Some a) None = Some a"
| "endMin None b = b"

fun intersectionImpl :: "('d \<Rightarrow> int) \<Rightarrow> 'd DateRange list \<Rightarrow> 'd DateRange list \<Rightarrow> int DateRange list" where
  "intersectionImpl gt [] rangesB = []"
| "intersectionImpl gt (rangeA # restA) [] = []"
| "intersectionImpl gt (rangeA # restA) (rangeB # restB) =
     (let startA = gt (start rangeA);
          startB = gt (start rangeB);
          endA = map_option gt (endDate rangeA);
          endB = map_option gt (endDate rangeB);
          intersectStartMs = max startA startB;
          intersectEndMs = endMin endA endB;
          pushed = (if endLess (Some intersectStartMs) intersectEndMs
                    then [\<lparr>start = intersectStartMs, endDate = intersectEndMs\<rparr>] else [])
      in pushed @
         (if endLess endA endB then intersectionImpl gt restA (rangeB # restB)
          else if endLess endB endA then intersectionImpl gt (rangeA # restA) restB
          else intersectionImpl gt restA restB))"

subsection \<open>The invariants of a range set\<close>

text \<open>
  A DateRange is well formed when its end, if present, is after its start.  The three
  invariants of a sorted range set, on time values: strictly sorted by start; pairwise
  disjoint (every earlier range has an end, at or before the start of every later one);
  non-touching (no end equals the start of the next range); and an open-ended range
  only in the last place.
\<close>

definition wfRange :: "int DateRange \<Rightarrow> bool" where
  "wfRange r = (case endDate r of None \<Rightarrow> True | Some e \<Rightarrow> start r < e)"

definition sortedByStart :: "int DateRange list \<Rightarrow> bool" where
  "sortedByStart rs = sorted_wrt (\<lambda>a b. start a < start b) rs"

definition disjointRanges :: "int DateRange list \<Rightarrow> bool" where
  "disjointRanges rs =
     sorted_wrt (\<lambda>a b. case endDate a of None \<Rightarrow> False | Some e \<Rightarrow> e \<le> start b) rs"

definition nonTouching :: "int DateRange list \<Rightarrow> bool" where
  "nonTouching rs = successively (\<lambda>a b. endDate a \<noteq> Some (start b)) rs"

definition openOnlyLast :: "int DateRange list \<Rightarrow> bool" where
  "openOnlyLast rs = list_all (\<lambda>r. endDate r \<noteq> None) (butlast rs)"

definition canonical :: "int DateRange list \<Rightarrow> bool" where
  "canonical rs =
     (list_all wfRange rs \<and> sortedByStart rs \<and> disjointRanges rs \<and> nonTouching rs \<and>
      openOnlyLast rs)"

text \<open>
  The instants of a range set: \<open>covers gt rs t\<close> holds when the instant \<open>t\<close> (a time value)
  is in some range of \<open>rs\<close>, by \<open>inDateRangeImpl\<close> on the time values of the range.
\<close>

definition covers :: "('d \<Rightarrow> int) \<Rightarrow> 'd DateRange list \<Rightarrow> int \<Rightarrow> bool" where
  "covers gt rs t = list_ex (\<lambda>r. inDateRangeImpl (\<lambda>x. x) t (rangeTimes gt r)) rs"

text \<open>
  The same, as one recursive predicate: each range is well formed and ends strictly
  before the next one starts.
\<close>

fun chain :: "int DateRange list \<Rightarrow> bool" where
  "chain [] = True"
| "chain [r] = wfRange r"
| "chain (r # s # rest) =
     (wfRange r \<and> (case endDate r of None \<Rightarrow> False | Some e \<Rightarrow> e < start s) \<and>
      chain (s # rest))"

section \<open>The host calendar\<close>

text \<open>
  The conditions compute on JavaScript \<open>Date\<close> objects in local time.  The calendar is
  the host's, not this repository's; it is modelled here as the proleptic Gregorian
  calendar of ECMAScript with local time equal to UTC (no offset, no daylight saving
  time).  A time value is an \<open>int\<close> of milliseconds since 1970-01-01 00:00; the range
  limit of \<open>TimeClip\<close> and the invalid date \<open>NaN\<close> are not modelled.  Months count
  from 0 (January), days of the week from 0 (Sunday).
\<close>

definition msPerSecond :: int where "msPerSecond = 1000"
definition msPerMinute :: int where "msPerMinute = 60000"
definition msPerHour :: int where "msPerHour = 3600000"
definition msPerDay :: int where "msPerDay = 86400000"

definition Day :: "int \<Rightarrow> int" where
  "Day t = t div msPerDay"

definition TimeWithinDay :: "int \<Rightarrow> int" where
  "TimeWithinDay t = t mod msPerDay"

definition HourFromTime :: "int \<Rightarrow> int" where
  "HourFromTime t = (t div msPerHour) mod 24"

definition MinFromTime :: "int \<Rightarrow> int" where
  "MinFromTime t = (t div msPerMinute) mod 60"

definition SecFromTime :: "int \<Rightarrow> int" where
  "SecFromTime t = (t div msPerSecond) mod 60"

definition msFromTime :: "int \<Rightarrow> int" where
  "msFromTime t = t mod msPerSecond"

text \<open>
  The number of days from the start of year 0 (counted from March) to the start of year
  \<open>Y\<close>.
\<close>

definition yearStart :: "int \<Rightarrow> int" where
  "yearStart Y = 365 * Y + Y div 4 - Y div 100 + Y div 400"

text \<open>
  The number of the day that starts month \<open>m\<close> (any integer, counted from January of
  year 0) of the Gregorian calendar, day 0 being 1970-01-01: years are counted from
  March, so that the leap day is the last day of a year.
\<close>

definition monthStart :: "int \<Rightarrow> int" where
  "monthStart m =
     (let Y = (m - 2) div 12; mp = (m - 2) mod 12
      in yearStart Y + (153 * mp + 2) div 5 - 719468)"

text \<open>\<open>MakeDay(year, month, date)\<close>: month and date may lie outside their ranges.\<close>

definition MakeDay :: "int \<Rightarrow> int \<Rightarrow> int \<Rightarrow> int" where
  "MakeDay year month date = monthStart (12 * year + month) + date - 1"

definition MakeTime :: "int \<Rightarrow> int \<Rightarrow> int \<Rightarrow> int \<Rightarrow> int" where
  "MakeTime hour mn sec ms = hour * msPerHour + mn * msPerMinute + sec * msPerSecond + ms"

definition MakeDate :: "int \<Rightarrow> int \<Rightarrow> int" where
  "MakeDate day time = day * msPerDay + time"

text \<open>
  The civil date (year, month, day of the month) of a day number: 400-year eras of
  146097 days, centuries of 36524 days (the fourth one day longer), four-year cycles
  of 1461 days, years of 365 days (the fourth one day longer), all counted from March.
\<close>

definition civilFromDays :: "int \<Rightarrow> int \<times> int \<times> int" where
  "civilFromDays z =
     (let z' = z + 719468;
          era = z' div 146097;
          doe = z' mod 146097;
          n100 = min (doe div 36524) 3;
          r2 = doe - n100 * 36524;
          n4 = r2 div 1461;
          r3 = r2 mod 1461;
          n1 = min (r3 div 365) 3;
          doy = r3 - n1 * 365;
          Y = era * 400 + n100 * 100 + n4 * 4 + n1;
          mp = (5 * doy + 2) div 153;
          d = doy - (153 * mp + 2) div 5 + 1;
          m = (mp + 2) mod 12
      in (if m \<le> 1 then Y + 1 else Y, m, d))"

definition YearFromTime :: "int \<Rightarrow> int" where
  "YearFromTime t = fst (civilFromDays (Day t))"

definition MonthFromTime :: "int \<Rightarrow> int" where
  "MonthFromTime t = fst (snd (civilFromDays (Day t)))"

definition DateFromTime :: "int \<Rightarrow> int" where
  "DateFromTime t = snd (snd (civilFromDays (Day t)))"

definition WeekDayFromTime :: "int \<Rightarrow> int" where
  "WeekDayFromTime t = (Day t + 4) mod 7"

subsection \<open>The methods of Date, on time values\<close>

definition getFullYear :: "int \<Rightarrow> int" where "getFullYear t = YearFromTime t"
definition getMonth :: "int \<Rightarrow> int" where "getMonth t = MonthFromTime t"
definition getDate :: "int \<Rightarrow> int" where "getDate t = DateFromTime t"
definition getDay :: "int \<Rightarrow> int" where "getDay t = WeekDayFromTime t"
definition getHours :: "int \<Rightarrow> int" where "getHours t = HourFromTime t"
definition getMinutes :: "int \<Rightarrow> int" where "getMinutes t = MinFromTime t"
definition getSeconds :: "int \<Rightarrow> int" where "getSeconds t = SecFromTime t"
definition getMilliseconds :: "int \<Rightarrow> int" where "getMilliseconds t = msFromTime t"

definition setMilliseconds :: "int \<Rightarrow> int \<Rightarrow> int" where
  "setMilliseconds t ms =
     MakeDate (Day t) (MakeTime (HourFromTime t) (MinFromTime t) (SecFromTime t) ms)"

definition setSeconds :: "int \<Rightarrow> int \<Rightarrow> int" where
  "setSeconds t sec =
     MakeDate (Day t) (MakeTime (HourFromTime t) (MinFromTime t) sec (msFromTime t))"

definition setMinutes :: "int \<Rightarrow> int \<Rightarrow> int" where
  "setMinutes t mn =
     MakeDate (Day t) (MakeTime (HourFromTime t) mn (SecFromTime t) (msFromTime t))"

definition setHours :: "int \<Rightarrow> int \<Rightarrow> int" where
  "setHours t hour =
     MakeDate (Day t) (MakeTime hour (MinFromTime t) (SecFromTime t) (msFromTime t))"

text \<open>\<open>d.setHours(hour, min, sec, ms)\<close> with all four arguments.\<close>

definition setHours4 :: "int \<Rightarrow> int \<Rightarrow> int \<Rightarrow> int \<Rightarrow> int \<Rightarrow> int" where
  "setHours4 t hour mn sec ms = MakeDate (Day t) (MakeTime hour mn sec ms)"

definition setDate :: "int \<Rightarrow> int \<Rightarrow> int" where
  "setDate t dt = MakeDate (MakeDay (YearFromTime t) (MonthFromTime t) dt) (TimeWithinDay t)"

definition setMonth :: "int \<Rightarrow> int \<Rightarrow> int" where
  "setMonth t m = MakeDate (MakeDay (YearFromTime t) m (DateFromTime t)) (TimeWithinDay t)"

definition setFullYear :: "int \<Rightarrow> int \<Rightarrow> int" where
  "setFullYear t y = MakeDate (MakeDay y (MonthFromTime t) (DateFromTime t)) (TimeWithinDay t)"

text \<open>\<open>new Date(year, month, date)\<close>: a year from 0 to 99 means 1900 + year.\<close>

definition newDateYMD :: "int \<Rightarrow> int \<Rightarrow> int \<Rightarrow> int" where
  "newDateYMD year month date =
     MakeDate (MakeDay (if 0 \<le> year \<and> year \<le> 99 then 1900 + year else year) month date) 0"

section \<open>Conditions (timeCond.ts)\<close>

subsection \<open>The condition classes\<close>

text \<open>
  Date objects are mutable and shared, so a Date held by a condition is a reference
  (\<open>nat\<close>) into a store of Date objects.  \<open>TimeDeltaCond delta validFrom\<close>;
  \<open>TimeBetweenCond range\<close> with the stored (inclusive) range; \<open>DayPartCond dayPart cond\<close>;
  \<open>TimeSpanCond months days hours minutes seconds\<close>; \<open>NthCond startDate validFrom n cond\<close>
  with \<open>validFrom\<close> the ranges of the cached DateRangeSet;
  \<open>FirstAfterStartCond refCond relativeCond inclusive\<close>.
  The numbers of the source are modelled as integers.
\<close>

record DayTime =
  hour :: int
  minute :: int

record DayTimeRange =
  dtStart :: DayTime
  dtEnd :: DayTime

record MonthDay =
  month :: int
  day :: int

datatype Cond =
    TimeDeltaCond int nat
  | TimeBetweenCond DayTimeRange
  | MonthBetweenCond int int
  | DateBetweenCond MonthDay MonthDay
  | DayBetweenCond int int
  | DayPartCond string Cond
  | TimeSpanCond int int int int int
  | WeekDay int
  | OrCond "Cond list"
  | AndCond "Cond list"
  | NthCond nat "nat DateRange list" int Cond
  | FirstAfterStartCond Cond Cond bool

subsection \<open>Constructors and their validation\<close>

datatype error = Error string

definition TimeBetweenCond_range :: "DayTimeRange \<Rightarrow> bool \<Rightarrow> DayTimeRange" where
  "TimeBetweenCond_range rng inclusive =
     (if inclusive then rng
      else
        (let m1 = minute (dtEnd rng) - 1;
             h1 = hour (dtEnd rng);
             m2 = (if m1 < 0 then 59 else m1);
             h2 = (if m1 < 0 then h1 - 1 else h1);
             h3 = (if h2 < 0 then 23 else h2)
         in \<lparr>dtStart = dtStart rng, dtEnd = \<lparr>hour = h3, minute = m2\<rparr>\<rparr>))"

definition newTimeBetweenCond :: "DayTimeRange \<Rightarrow> bool \<Rightarrow> Cond" where
  "newTimeBetweenCond rng inclusive = TimeBetweenCond (TimeBetweenCond_range rng inclusive)"

definition newMonthBetweenCond :: "int \<Rightarrow> int \<Rightarrow> error + Cond" where
  "newMonthBetweenCond s e =
     (if s < 0 \<or> s > 11 \<or> e < 0 \<or> e > 11
      then Inl (Error ''Month numbers must be between 0 and 11'')
      else Inr (MonthBetweenCond s e))"

definition newDateBetweenCond :: "MonthDay \<Rightarrow> MonthDay \<Rightarrow> error + Cond" where
  "newDateBetweenCond s e =
     (if month s < 0 \<or> month s > 11 \<or> month e < 0 \<or> month e > 11 \<or>
         day s < 1 \<or> day s > 31 \<or> day e < 1 \<or> day e > 31
      then Inl (Error ''Month must be between 0-11 and day between 1-31.'')
      else Inr (DateBetweenCond s e))"

definition newDayBetweenCond :: "int \<Rightarrow> int \<Rightarrow> error + Cond" where
  "newDayBetweenCond s e =
     (if s < 1 \<or> s > 31 \<or> e < 1 \<or> e > 31
      then Inl (Error ''Day numbers must be between 1 and 31'')
      else Inr (DayBetweenCond s e))"

definition newDayPartCond :: "string \<Rightarrow> DayTimeRange \<Rightarrow> Cond" where
  "newDayPartCond dayPart timeRange = DayPartCond dayPart (newTimeBetweenCond timeRange False)"

text \<open>The argument of the TimeSpanCond constructor: every component is optional.\<close>

record Duration =
  months :: "int option"
  days :: "int option"
  hours :: "int option"
  minutes :: "int option"
  seconds :: "int option"

definition orZero :: "int option \<Rightarrow> int" where
  "orZero v = (case v of None \<Rightarrow> 0 | Some x \<Rightarrow> x)"

definition newTimeSpanCond :: "Duration \<Rightarrow> error + Cond" where
  "newTimeSpanCond duration =
     (let mo = orZero (months duration);
          d = orZero (days duration);
          h = orZero (hours duration);
          mi = orZero (minutes duration);
          s = orZero (seconds duration)
      in if mo < 0 \<or> d < 0 \<or> h < 0 \<or> mi < 0 \<or> s < 0
         then Inl (Error ''Duration must be positive'')
         else if mo = 0 \<and> d = 0 \<and> h = 0 \<and> mi = 0 \<and> s = 0
         then Inl (Error ''Duration must be non-zero'')
         else Inr (TimeSpanCond mo d h mi s))"

definition newWeekDay :: "int \<Rightarrow> error + Cond" where
  "newWeekDay weekDayNumber =
     (if weekDayNumber < 0 \<or> weekDayNumber > 6
      then Inl (Error ''Week day number must be between 0 and 6'')
      else Inr (WeekDay weekDayNumber))"

definition newOrCond :: "Cond list \<Rightarrow> error + Cond" where
  "newOrCond conditions =
     (if length conditions = 0 then Inl (Error ''At least one condition is required'')
      else Inr (OrCond conditions))"

definition newAndCond :: "Cond list \<Rightarrow> error + Cond" where
  "newAndCond conditions =
     (if length conditions = 0 then Inl (Error ''At least one condition is required'')
      else Inr (AndCond conditions))"

definition newFirstAfterStartCond :: "Cond \<Rightarrow> Cond \<Rightarrow> bool \<Rightarrow> Cond" where
  "newFirstAfterStartCond refCond relativeCond inclusive =
     FirstAfterStartCond refCond relativeCond inclusive"

definition raises :: "error + 'a \<Rightarrow> bool" where
  "raises r = (case r of Inl e \<Rightarrow> True | Inr v \<Rightarrow> False)"

subsection \<open>The queries of the conditions that compute on fresh copies\<close>

text \<open>
  \<open>lastActiveRange\<close> and \<open>nextRanges\<close> of these classes copy the given Date and return
  Date objects of their own, so they are functions from the time value of the
  argument to the time values of the result.  \<open>nextRanges\<close> is given as the range that
  the source wraps in \<open>new DateRangeSet([...])\<close>.
\<close>

definition TimeBetweenCond_getConcreteRange :: "int \<Rightarrow> DayTime \<Rightarrow> int" where
  "TimeBetweenCond_getConcreteRange date dayTime = setHours4 date (hour dayTime) (minute dayTime) 0 0"

definition TimeBetweenCond_endRange :: "DayTimeRange \<Rightarrow> int \<Rightarrow> int \<Rightarrow> int \<Rightarrow> int" where
  "TimeBetweenCond_endRange rng relativeTo startTime endTime =
     (let d0 = TimeBetweenCond_getConcreteRange relativeTo (dtEnd rng);
          d = (if startTime \<le> endTime then d0 else setDate d0 (getDate d0 + 1))
      in setMinutes d (getMinutes d + 1))"

definition TimeBetweenCond_lastActiveRange :: "DayTimeRange \<Rightarrow> int \<Rightarrow> int DateRange" where
  "TimeBetweenCond_lastActiveRange rng date =
     (let startTime = TimeBetweenCond_getConcreteRange date (dtStart rng);
          endTime = TimeBetweenCond_getConcreteRange date (dtEnd rng);
          actualStart = (if date \<ge> startTime then startTime
                         else setDate startTime (getDate startTime - 1));
          actualEnd = TimeBetweenCond_endRange rng actualStart startTime endTime
      in \<lparr>start = actualStart, endDate = Some actualEnd\<rparr>)"

definition TimeBetweenCond_nextRanges :: "DayTimeRange \<Rightarrow> int \<Rightarrow> int DateRange" where
  "TimeBetweenCond_nextRanges rng searchAfter =
     (let startTime = TimeBetweenCond_getConcreteRange searchAfter (dtStart rng);
          endTime = TimeBetweenCond_getConcreteRange searchAfter (dtEnd rng);
          actualStart = (if searchAfter \<ge> startTime then setDate startTime (getDate startTime + 1)
                         else startTime);
          actualEnd = TimeBetweenCond_endRange rng actualStart startTime endTime
      in \<lparr>start = actualStart, endDate = Some actualEnd\<rparr>)"

definition MonthBetweenCond_endRangeStartingOn :: "int \<Rightarrow> int \<Rightarrow> int \<Rightarrow> int" where
  "MonthBetweenCond_endRangeStartingOn s e startD =
     (if s \<le> e then newDateYMD (getFullYear startD) (e + 1) 1
      else newDateYMD (getFullYear startD + 1) (e + 1) 1)"

definition MonthBetweenCond_lastActiveRange :: "int \<Rightarrow> int \<Rightarrow> int \<Rightarrow> int DateRange" where
  "MonthBetweenCond_lastActiveRange s e date =
     (let currentMonth = getMonth date;
          currentYear = getFullYear date;
          startDate0 = setHours4 (newDateYMD currentYear s 1) 0 0 0 0;
          startDate = (if currentMonth \<ge> s then startDate0
                       else setFullYear startDate0 (getFullYear startDate0 - 1));
          endD = MonthBetweenCond_endRangeStartingOn s e startDate
      in \<lparr>start = startDate, endDate = Some endD\<rparr>)"

definition MonthBetweenCond_nextRanges :: "int \<Rightarrow> int \<Rightarrow> int \<Rightarrow> int DateRange" where
  "MonthBetweenCond_nextRanges s e searchAfter =
     (let searchYear = getFullYear searchAfter;
          searchMonth = getMonth searchAfter;
          startDate0 = setHours4 (newDateYMD searchYear s 1) 0 0 0 0;
          startDate = (if searchMonth \<ge> s then setFullYear startDate0 (getFullYear startDate0 + 1)
                       else startDate0);
          endD = MonthBetweenCond_endRangeStartingOn s e startDate
      in \<lparr>start = startDate, endDate = Some endD\<rparr>)"

definition DateBetweenCond_getConcreteRange :: "int \<Rightarrow> MonthDay \<Rightarrow> int" where
  "DateBetweenCond_getConcreteRange year monthDay =
     setHours4 (newDateYMD year (month monthDay) (day monthDay)) 0 0 0 0"

definition DateBetweenCond_endRange :: "MonthDay \<Rightarrow> int \<Rightarrow> int \<Rightarrow> int \<Rightarrow> int" where
  "DateBetweenCond_endRange endMonthDay relativeTo startD endD =
     (let d = (if startD \<le> endD
               then DateBetweenCond_getConcreteRange (getFullYear relativeTo) endMonthDay
               else DateBetweenCond_getConcreteRange (getFullYear relativeTo + 1) endMonthDay)
      in setDate d (getDate d + 1))"

definition DateBetweenCond_lastActiveRange :: "MonthDay \<Rightarrow> MonthDay \<Rightarrow> int \<Rightarrow> int DateRange" where
  "DateBetweenCond_lastActiveRange startMonthDay endMonthDay date =
     (let currentYear = getFullYear date;
          startD = DateBetweenCond_getConcreteRange currentYear startMonthDay;
          endD = DateBetweenCond_getConcreteRange currentYear endMonthDay;
          actualStart = (if date \<ge> startD then startD
                         else setFullYear startD (getFullYear startD - 1));
          actualEnd = DateBetweenCond_endRange endMonthDay actualStart startD endD
      in \<lparr>start = actualStart, endDate = Some actualEnd\<rparr>)"

definition DateBetweenCond_nextRanges :: "MonthDay \<Rightarrow> MonthDay \<Rightarrow> int \<Rightarrow> int DateRange" where
  "DateBetweenCond_nextRanges startMonthDay endMonthDay searchAfter =
     (let currentYear = getFullYear searchAfter;
          startD = DateBetweenCond_getConcreteRange currentYear startMonthDay;
          endD = DateBetweenCond_getConcreteRange currentYear endMonthDay;
          actualStart = (if searchAfter \<ge> startD then setFullYear startD (getFullYear startD + 1)
                         else startD);
          actualEnd = DateBetweenCond_endRange endMonthDay actualStart startD endD
      in \<lparr>start = actualStart, endDate = Some actualEnd\<rparr>)"

definition DayBetweenCond_endRangeStartingOn :: "int \<Rightarrow> int \<Rightarrow> int \<Rightarrow> int" where
  "DayBetweenCond_endRangeStartingOn s e startD =
     (if s \<le> e then newDateYMD (getFullYear startD) (getMonth startD) (e + 1)
      else newDateYMD (getFullYear startD) (getMonth startD + 1) (e + 1))"

definition DayBetweenCond_lastActiveRange :: "int \<Rightarrow> int \<Rightarrow> int \<Rightarrow> int DateRange" where
  "DayBetweenCond_lastActiveRange s e date =
     (let currentDay = getDate date;
          currentMonth = getMonth date;
          currentYear = getFullYear date;
          startDate0 = setHours4 (newDateYMD currentYear currentMonth s) 0 0 0 0;
          startDate = (if currentDay \<ge> s then startDate0
                       else setMonth startDate0 (getMonth startDate0 - 1));
          endD = DayBetweenCond_endRangeStartingOn s e startDate
      in \<lparr>start = startDate, endDate = Some endD\<rparr>)"

definition DayBetweenCond_nextRanges :: "int \<Rightarrow> int \<Rightarrow> int \<Rightarrow> int DateRange" where
  "DayBetweenCond_nextRanges s e searchAfter =
     (let searchYear = getFullYear searchAfter;
          searchMonth = getMonth searchAfter;
          searchDay = getDate searchAfter;
          startDate0 = setHours4 (newDateYMD searchYear searchMonth s) 0 0 0 0;
          startDate = (if searchDay \<ge> s then setMonth startDate0 (getMonth startDate0 + 1)
                       else startDate0);
          endD = DayBetweenCond_endRangeStartingOn s e startDate
      in \<lparr>start = startDate, endDate = Some endD\<rparr>)"

text \<open>\<open>TimeSpanCond\<close>: the arguments are the fields months, days, hours, minutes, seconds.\<close>

definition TimeSpanCond_endRange :: "int \<Rightarrow> int \<Rightarrow> int \<Rightarrow> int \<Rightarrow> int \<Rightarrow> int \<Rightarrow> int" where
  "TimeSpanCond_endRange mo d h mi s startD =
     (let e1 = setMonth startD (getMonth startD + mo);
          e2 = setDate e1 (getDate e1 + d);
          e3 = setHours e2 (getHours e2 + h);
          e4 = setMinutes e3 (getMinutes e3 + mi);
          e5 = setSeconds e4 (getSeconds e4 + s)
      in e5)"

definition TimeSpanCond_lastActiveRange :: "int \<Rightarrow> int \<Rightarrow> int \<Rightarrow> int \<Rightarrow> int \<Rightarrow> int \<Rightarrow> int DateRange" where
  "TimeSpanCond_lastActiveRange mo d h mi s date =
     (let s0 = setMilliseconds date 0;
          startDate =
            (if s = 0 then
               (let s1 = setSeconds s0 0 in
                if mi = 0 then
                  (let s2 = setMinutes s1 0 in
                   if h = 0 then
                     (let s3 = setHours s2 0 in
                      if d = 0 then setDate s3 1 else s3)
                   else s2)
                else s1)
             else s0);
          endD = TimeSpanCond_endRange mo d h mi s startDate
      in \<lparr>start = startDate, endDate = Some endD\<rparr>)"

definition TimeSpanCond_nextRanges :: "int \<Rightarrow> int \<Rightarrow> int \<Rightarrow> int \<Rightarrow> int \<Rightarrow> int \<Rightarrow> int DateRange" where
  "TimeSpanCond_nextRanges mo d h mi s searchAfter =
     (let s0 = setMilliseconds searchAfter 0;
          startDate =
            (if s > 0 then setSeconds s0 (getSeconds s0 + 1)
             else
               (let s1 = setSeconds s0 0 in
                if mi > 0 then setMinutes s1 (getMinutes s1 + 1)
                else
                  (let s2 = setMinutes s1 0 in
                   if h > 0 then setHours s2 (getHours s2 + 1)
                   else
                     (let s3 = setHours s2 0 in
                      if d > 0 then setDate s3 (getDate s3 + 1) else setDate s3 1))));
          endD = TimeSpanCond_endRange mo d h mi s startDate
      in \<lparr>start = startDate, endDate = Some endD\<rparr>)"

text \<open>
  The remainder operator \<open>%\<close> of JavaScript truncates towards zero: the result has the
  sign of the dividend.
\<close>

definition jsRem :: "int \<Rightarrow> int \<Rightarrow> int" where
  "jsRem a b = sgn a * (\<bar>a\<bar> mod \<bar>b\<bar>)"

definition WeekDay_lastActiveRange :: "int \<Rightarrow> int \<Rightarrow> int DateRange" where
  "WeekDay_lastActiveRange weekDayNumber date =
     (let currentDayNumber = getDay date;
          daysAgo = jsRem (currentDayNumber - weekDayNumber + 7) 7;
          lastInstanceDate = setHours4 (setDate date (getDate date - daysAgo)) 0 0 0 0;
          lastInstanceEnd = setDate lastInstanceDate (getDate lastInstanceDate + 1)
      in \<lparr>start = lastInstanceDate, endDate = Some lastInstanceEnd\<rparr>)"

definition WeekDay_nextRanges :: "int \<Rightarrow> int \<Rightarrow> int DateRange" where
  "WeekDay_nextRanges weekDayNumber searchAfter =
     (let currentDay = getDay searchAfter;
          d0 = weekDayNumber - currentDay;
          daysUntilNextWeekDay = (if d0 \<le> 0 then d0 + 7 else d0);
          nextStartDate = setHours4 (setDate searchAfter (getDate searchAfter + daysUntilNextWeekDay)) 0 0 0 0;
          nextEndDate = setDate nextStartDate (getDate nextStartDate + 1)
      in \<lparr>start = nextStartDate, endDate = Some nextEndDate\<rparr>)"

section \<open>Conditions over a store of Date objects\<close>

text \<open>
  The store holds the time value of every Date object; a reference is an index into it.
  Every reference comes from an allocation, so it is never out of range.  A query takes
  the reference of its argument and the store and returns its result with the new store;
  \<open>None\<close> stands for a query that does not return (a \<open>while\<close> loop that runs for ever).
\<close>

type_synonym heap = "int list"

definition newDate :: "int \<Rightarrow> heap \<Rightarrow> nat \<times> heap" where
  "newDate t h = (length h, h @ [t])"

definition getTime :: "heap \<Rightarrow> nat \<Rightarrow> int" where
  "getTime h a = h ! a"

text \<open>\<open>d.setMilliseconds(d.getMilliseconds() - 1)\<close>, in place.\<close>

definition oneMsEarlier :: "nat \<Rightarrow> heap \<Rightarrow> heap" where
  "oneMsEarlier a h = h[a := setMilliseconds (h ! a) (getMilliseconds (h ! a) - 1)]"

text \<open>Fresh Date objects for the time values of a range, and of a list of ranges.\<close>

definition newRange :: "int DateRange \<Rightarrow> heap \<Rightarrow> nat DateRange \<times> heap" where
  "newRange r h =
     (let (a, h1) = newDate (start r) h in
      case endDate r of
        None \<Rightarrow> (\<lparr>start = a, endDate = None\<rparr>, h1)
      | Some e \<Rightarrow> (let (b, h2) = newDate e h1 in (\<lparr>start = a, endDate = Some b\<rparr>, h2)))"

fun newRanges :: "int DateRange list \<Rightarrow> heap \<Rightarrow> nat DateRange list \<times> heap" where
  "newRanges [] h = ([], h)"
| "newRanges (r # rs) h =
     (let (r', h1) = newRange r h; (rs', h2) = newRanges rs h1 in (r' # rs', h2))"

text \<open>
  The abstract class \<open>Cond\<close>: an object with the two abstract methods.  \<open>nextRanges\<close>
  returns the ranges of its DateRangeSet.
\<close>

record CondObj =
  lastActiveRange :: "nat \<Rightarrow> heap \<Rightarrow> (nat DateRange option \<times> heap) option"
  nextRanges :: "nat \<Rightarrow> heap \<Rightarrow> (nat DateRange list \<times> heap) option"

text \<open>The methods that \<open>Cond\<close> implements: \<open>inRange\<close>, \<open>nextStart\<close>, \<open>currentEnd\<close>.\<close>

definition inRange :: "CondObj \<Rightarrow> nat \<Rightarrow> heap \<Rightarrow> (bool \<times> heap) option" where
  "inRange c date h =
     (case lastActiveRange c date h of
        None \<Rightarrow> None
      | Some (rng, h') \<Rightarrow>
          Some (case rng of None \<Rightarrow> False | Some r \<Rightarrow> inDateRangeImpl (getTime h') date r, h'))"

text \<open>The accessors of \<open>DateRangeSet\<close>, on its ranges.\<close>

definition firstDate :: "'d DateRange list \<Rightarrow> 'd option" where
  "firstDate ranges = (if length ranges > 0 then Some (start (hd ranges)) else None)"

definition lastDate :: "'d DateRange list \<Rightarrow> 'd option" where
  "lastDate ranges = (if length ranges > 0 then endDate (last ranges) else None)"

definition lastRange :: "'d DateRange list \<Rightarrow> 'd DateRange option" where
  "lastRange ranges = (if length ranges > 0 then Some (last ranges) else None)"

definition nextStart :: "CondObj \<Rightarrow> nat \<Rightarrow> heap \<Rightarrow> (nat option \<times> heap) option" where
  "nextStart c date h =
     (case nextRanges c date h of None \<Rightarrow> None | Some (rs, h') \<Rightarrow> Some (firstDate rs, h'))"

definition currentEnd :: "CondObj \<Rightarrow> nat \<Rightarrow> heap \<Rightarrow> (nat option \<times> heap) option" where
  "currentEnd c date h =
     (case lastActiveRange c date h of
        None \<Rightarrow> None
      | Some (rng, h') \<Rightarrow> Some (case rng of None \<Rightarrow> None | Some r \<Rightarrow> endDate r, h'))"

subsection \<open>Conditions that return fresh Date objects\<close>

definition freshLastActiveRange :: "(int \<Rightarrow> int DateRange) \<Rightarrow> nat \<Rightarrow> heap \<Rightarrow> (nat DateRange option \<times> heap) option" where
  "freshLastActiveRange f date h = (let (r, h') = newRange (f (h ! date)) h in Some (Some r, h'))"

definition freshNextRanges :: "(int \<Rightarrow> int DateRange) \<Rightarrow> nat \<Rightarrow> heap \<Rightarrow> (nat DateRange list \<times> heap) option" where
  "freshNextRanges f searchAfter h =
     (let (r, h') = newRange (f (h ! searchAfter)) h in Some (processRanges (getTime h') [r], h'))"

definition freshCond :: "(int \<Rightarrow> int DateRange) \<Rightarrow> (int \<Rightarrow> int DateRange) \<Rightarrow> CondObj" where
  "freshCond lar nr =
     \<lparr>lastActiveRange = freshLastActiveRange lar, nextRanges = freshNextRanges nr\<rparr>"

subsection \<open>TimeDeltaCond\<close>

text \<open>The range returned by \<open>lastActiveRange\<close> holds the Date object \<open>validFrom\<close> itself.\<close>

definition TimeDeltaCond_lastActiveRange :: "nat \<Rightarrow> nat \<Rightarrow> heap \<Rightarrow> (nat DateRange option \<times> heap) option" where
  "TimeDeltaCond_lastActiveRange validFrom date h =
     (if h ! date \<ge> h ! validFrom then Some (Some \<lparr>start = validFrom, endDate = None\<rparr>, h)
      else Some (None, h))"

definition TimeDeltaCond_nextRanges :: "nat \<Rightarrow> nat \<Rightarrow> heap \<Rightarrow> (nat DateRange list \<times> heap) option" where
  "TimeDeltaCond_nextRanges validFrom searchAfter h =
     (case inRange \<lparr>lastActiveRange = TimeDeltaCond_lastActiveRange validFrom,
                    nextRanges = (\<lambda>d s. None)\<rparr> searchAfter h of
        None \<Rightarrow> None
      | Some (b, h') \<Rightarrow>
          if b then Some (processRanges (getTime h') [], h')
          else Some (processRanges (getTime h') [\<lparr>start = validFrom, endDate = None\<rparr>], h'))"

definition TimeDeltaCond_obj :: "nat \<Rightarrow> CondObj" where
  "TimeDeltaCond_obj validFrom =
     \<lparr>lastActiveRange = TimeDeltaCond_lastActiveRange validFrom,
      nextRanges = TimeDeltaCond_nextRanges validFrom\<rparr>"

subsection \<open>OrCond\<close>

fun OrCond_lastActiveRange_loop :: "CondObj list \<Rightarrow> nat \<Rightarrow> nat DateRange list \<Rightarrow> heap \<Rightarrow> (nat DateRange list \<times> heap) option" where
  "OrCond_lastActiveRange_loop [] date resultSet h = Some (resultSet, h)"
| "OrCond_lastActiveRange_loop (cond # conds) date resultSet h =
     (case lastActiveRange cond date h of
        None \<Rightarrow> None
      | Some (childNextRangeSet, h') \<Rightarrow>
          (case childNextRangeSet of
             None \<Rightarrow> OrCond_lastActiveRange_loop conds date resultSet h'
           | Some r \<Rightarrow>
               OrCond_lastActiveRange_loop conds date (unionImpl (getTime h') resultSet [r]) h'))"

definition OrCond_lastActiveRange :: "CondObj list \<Rightarrow> nat \<Rightarrow> heap \<Rightarrow> (nat DateRange option \<times> heap) option" where
  "OrCond_lastActiveRange conditions date h =
     (case OrCond_lastActiveRange_loop conditions date [] h of
        None \<Rightarrow> None
      | Some (resultSet, h') \<Rightarrow>
          if length resultSet = 0 then Some (None, h') else Some (Some (last resultSet), h'))"

fun OrCond_nextRanges_loop :: "CondObj list \<Rightarrow> nat \<Rightarrow> nat DateRange list \<Rightarrow> heap \<Rightarrow> (nat DateRange list \<times> heap) option" where
  "OrCond_nextRanges_loop [] searchAfter resultSet h = Some (resultSet, h)"
| "OrCond_nextRanges_loop (cond # conds) searchAfter resultSet h =
     (case nextRanges cond searchAfter h of
        None \<Rightarrow> None
      | Some (childNextRangeSet, h') \<Rightarrow>
          OrCond_nextRanges_loop conds searchAfter (unionImpl (getTime h') resultSet childNextRangeSet) h')"

definition OrCond_nextRanges :: "CondObj list \<Rightarrow> nat \<Rightarrow> heap \<Rightarrow> (nat DateRange list \<times> heap) option" where
  "OrCond_nextRanges conditions searchAfter h =
     OrCond_nextRanges_loop conditions searchAfter (processRanges (getTime h) []) h"

definition OrCond_obj :: "CondObj list \<Rightarrow> CondObj" where
  "OrCond_obj conditions =
     \<lparr>lastActiveRange = OrCond_lastActiveRange conditions,
      nextRanges = OrCond_nextRanges conditions\<rparr>"

subsection \<open>AndCond\<close>

text \<open>
  The first loop of \<open>lastActiveRange\<close>: \<open>earliestStart\<close> and \<open>latestEnd\<close> are references
  to Date objects of the children's ranges, or absent.
\<close>

fun AndCond_lastActiveRange_bounds :: "CondObj list \<Rightarrow> nat \<Rightarrow> nat option \<Rightarrow> nat option \<Rightarrow> heap \<Rightarrow> ((nat option \<times> nat option) \<times> heap) option" where
  "AndCond_lastActiveRange_bounds [] date earliestStart latestEnd h = Some ((earliestStart, latestEnd), h)"
| "AndCond_lastActiveRange_bounds (cond # conds) date earliestStart latestEnd h =
     (case lastActiveRange cond date h of
        None \<Rightarrow> None
      | Some (rng, h') \<Rightarrow>
          (case rng of
             None \<Rightarrow> AndCond_lastActiveRange_bounds conds date earliestStart latestEnd h'
           | Some r \<Rightarrow>
               (let earliestStart' =
                      (if (case earliestStart of None \<Rightarrow> True
                           | Some es \<Rightarrow> h' ! start r < h' ! es)
                       then Some (start r) else earliestStart);
                    latestEnd' =
                      (if (case latestEnd of None \<Rightarrow> True
                           | Some le \<Rightarrow> (case endDate r of None \<Rightarrow> False
                                         | Some e \<Rightarrow> h' ! e > h' ! le))
                       then endDate r else latestEnd)
                in AndCond_lastActiveRange_bounds conds date earliestStart' latestEnd' h')))"

text \<open>The second loop: the children are asked again, at \<open>earliestStart\<close>.\<close>

fun AndCond_lastActiveRange_bounds2 :: "CondObj list \<Rightarrow> nat \<Rightarrow> nat option \<Rightarrow> heap \<Rightarrow> (nat option \<times> heap) option" where
  "AndCond_lastActiveRange_bounds2 [] earliestStart earliestStart2 h = Some (earliestStart2, h)"
| "AndCond_lastActiveRange_bounds2 (cond # conds) earliestStart earliestStart2 h =
     (case lastActiveRange cond earliestStart h of
        None \<Rightarrow> None
      | Some (rng, h') \<Rightarrow>
          (case rng of
             None \<Rightarrow> AndCond_lastActiveRange_bounds2 conds earliestStart earliestStart2 h'
           | Some r \<Rightarrow>
               (let earliestStart2' =
                      (if (case earliestStart2 of None \<Rightarrow> True
                           | Some es \<Rightarrow> h' ! start r < h' ! es)
                       then Some (start r) else earliestStart2)
                in AndCond_lastActiveRange_bounds2 conds earliestStart earliestStart2' h')))"

text \<open>
  The start of the enumeration of one child: \<open>refStart\<close> is a copy of \<open>earliestStart\<close>,
  or the start Date of the child's own range when it has one, and is then moved one
  millisecond back in place.
\<close>

definition AndCond_refStart :: "CondObj \<Rightarrow> nat \<Rightarrow> heap \<Rightarrow> (nat \<times> heap) option" where
  "AndCond_refStart cond earliestStart h =
     (let (refStart0, h1) = newDate (h ! earliestStart) h in
      case lastActiveRange cond refStart0 h1 of
        None \<Rightarrow> None
      | Some (condRange, h2) \<Rightarrow>
          (let refStart = (case condRange of None \<Rightarrow> refStart0 | Some r \<Rightarrow> start r)
           in Some (refStart, oneMsEarlier refStart h2)))"

text \<open>The \<open>while\<close> loop of \<open>lastActiveRange\<close>.\<close>

partial_function (option) AndCond_lastActiveRange_while :: "CondObj \<Rightarrow> nat option \<Rightarrow> nat \<Rightarrow> nat DateRange list \<Rightarrow> nat DateRange list \<Rightarrow> heap \<Rightarrow> (nat DateRange list \<times> heap) option" where
  "AndCond_lastActiveRange_while cond latestEnd date condRanges unionRanges h =
     (case lastDate condRanges of
        None \<Rightarrow> Some (unionRanges, h)
      | Some ld \<Rightarrow>
          if (case latestEnd of Some le \<Rightarrow> h ! le \<ge> h ! ld | None \<Rightarrow> h ! date \<ge> h ! ld)
          then
            (case nextRanges cond ld h of
               None \<Rightarrow> None
             | Some (condRanges', h') \<Rightarrow>
                 AndCond_lastActiveRange_while cond latestEnd date condRanges'
                   (unionImpl (getTime h') unionRanges condRanges') h')
          else Some (unionRanges, h))"

declare AndCond_lastActiveRange_while.simps [code]

text \<open>The third loop: the running intersection with the union of each child's ranges.\<close>

fun AndCond_lastActiveRange_intersect :: "CondObj list \<Rightarrow> nat \<Rightarrow> nat option \<Rightarrow> nat \<Rightarrow> nat DateRange list \<Rightarrow> heap \<Rightarrow> (nat DateRange list \<times> heap) option" where
  "AndCond_lastActiveRange_intersect [] earliestStart latestEnd date intersection h = Some (intersection, h)"
| "AndCond_lastActiveRange_intersect (cond # conds) earliestStart latestEnd date intersection h =
     (case AndCond_refStart cond earliestStart h of
        None \<Rightarrow> None
      | Some (refStart, h1) \<Rightarrow>
          (case nextRanges cond refStart h1 of
             None \<Rightarrow> None
           | Some (condRanges, h2) \<Rightarrow>
               (case AndCond_lastActiveRange_while cond latestEnd date condRanges
                       (unionImpl (getTime h2) (processRanges (getTime h2) []) condRanges) h2 of
                  None \<Rightarrow> None
                | Some (unionRanges, h3) \<Rightarrow>
                    (let (intersection', h4) =
                           newRanges (intersectionImpl (getTime h3) intersection unionRanges) h3
                     in AndCond_lastActiveRange_intersect conds earliestStart latestEnd date
                          intersection' h4))))"

definition AndCond_lastActiveRange :: "CondObj list \<Rightarrow> nat \<Rightarrow> heap \<Rightarrow> (nat DateRange option \<times> heap) option" where
  "AndCond_lastActiveRange conditions date h =
     (case AndCond_lastActiveRange_bounds conditions date None None h of
        None \<Rightarrow> None
      | Some ((earliestStart0, latestEnd), h1) \<Rightarrow>
          (case earliestStart0 of
             None \<Rightarrow> Some (None, h1)
           | Some es0 \<Rightarrow>
               (case AndCond_lastActiveRange_bounds2 conditions es0 None h1 of
                  None \<Rightarrow> None
                | Some (earliestStart2, h2) \<Rightarrow>
                    (let earliestStart = (case earliestStart2 of None \<Rightarrow> es0 | Some es2 \<Rightarrow> es2);
                         intersection0 = processRanges (getTime h2)
                                           [\<lparr>start = earliestStart, endDate = latestEnd\<rparr>]
                     in case AndCond_lastActiveRange_intersect conditions earliestStart latestEnd
                               date intersection0 h2 of
                          None \<Rightarrow> None
                        | Some (intersection, h3) \<Rightarrow>
                            Some (lastRange (filter (\<lambda>r. h3 ! date \<ge> h3 ! start r) intersection),
                                  h3)))))"

text \<open>\<open>nextRanges\<close>: its first loop also asks each child that has a last active range for
  its next ranges.\<close>

fun AndCond_nextRanges_bounds :: "CondObj list \<Rightarrow> nat \<Rightarrow> nat option \<Rightarrow> nat option \<Rightarrow> heap \<Rightarrow> ((nat option \<times> nat option) \<times> heap) option" where
  "AndCond_nextRanges_bounds [] searchAfter earliestStart latestEnd h = Some ((earliestStart, latestEnd), h)"
| "AndCond_nextRanges_bounds (cond # conds) searchAfter earliestStart latestEnd h =
     (case lastActiveRange cond searchAfter h of
        None \<Rightarrow> None
      | Some (rng, h1) \<Rightarrow>
          (case rng of
             None \<Rightarrow> AndCond_nextRanges_bounds conds searchAfter earliestStart latestEnd h1
           | Some r \<Rightarrow>
               (let earliestStart1 =
                      (if (case earliestStart of None \<Rightarrow> True
                           | Some es \<Rightarrow> h1 ! start r < h1 ! es)
                       then Some (start r) else earliestStart)
                in case nextRanges cond searchAfter h1 of
                     None \<Rightarrow> None
                   | Some (ranges, h2) \<Rightarrow>
                       (let earliestStart2 =
                              (if (case earliestStart1 of None \<Rightarrow> True
                                   | Some es \<Rightarrow> (case firstDate ranges of None \<Rightarrow> False
                                                 | Some fd \<Rightarrow> h2 ! fd < h2 ! es))
                               then firstDate ranges else earliestStart1);
                            latestEnd' =
                              (if (case latestEnd of None \<Rightarrow> True
                                   | Some le \<Rightarrow> (case lastDate ranges of None \<Rightarrow> False
                                                 | Some ld \<Rightarrow> h2 ! ld > h2 ! le))
                               then lastDate ranges else latestEnd)
                        in AndCond_nextRanges_bounds conds searchAfter earliestStart2 latestEnd' h2))))"

partial_function (option) AndCond_nextRanges_while :: "CondObj \<Rightarrow> nat option \<Rightarrow> nat DateRange list \<Rightarrow> nat DateRange list \<Rightarrow> heap \<Rightarrow> (nat DateRange list \<times> heap) option" where
  "AndCond_nextRanges_while cond latestEnd condRanges unionRanges h =
     (case lastDate condRanges of
        None \<Rightarrow> Some (unionRanges, h)
      | Some ld \<Rightarrow>
          (case latestEnd of
             None \<Rightarrow> Some (unionRanges, h)
           | Some le \<Rightarrow>
               if h ! le \<ge> h ! ld
               then
                 (case nextRanges cond ld h of
                    None \<Rightarrow> None
                  | Some (condRanges', h') \<Rightarrow>
                      AndCond_nextRanges_while cond latestEnd condRanges'
                        (unionImpl (getTime h') unionRanges condRanges') h')
               else Some (unionRanges, h)))"

declare AndCond_nextRanges_while.simps [code]

fun AndCond_nextRanges_intersect :: "CondObj list \<Rightarrow> nat \<Rightarrow> nat option \<Rightarrow> nat DateRange list \<Rightarrow> heap \<Rightarrow> (nat DateRange list \<times> heap) option" where
  "AndCond_nextRanges_intersect [] earliestStart latestEnd intersection h = Some (intersection, h)"
| "AndCond_nextRanges_intersect (cond # conds) earliestStart latestEnd intersection h =
     (case AndCond_refStart cond earliestStart h of
        None \<Rightarrow> None
      | Some (refStart, h1) \<Rightarrow>
          (case nextRanges cond refStart h1 of
             None \<Rightarrow> None
           | Some (condRanges, h2) \<Rightarrow>
               (case AndCond_nextRanges_while cond latestEnd condRanges
                       (unionImpl (getTime h2) (processRanges (getTime h2) []) condRanges) h2 of
                  None \<Rightarrow> None
                | Some (unionRanges, h3) \<Rightarrow>
                    (let (intersection', h4) =
                           newRanges (intersectionImpl (getTime h3) intersection unionRanges) h3
                     in AndCond_nextRanges_intersect conds earliestStart latestEnd
                          intersection' h4))))"

definition AndCond_nextRanges :: "CondObj list \<Rightarrow> nat \<Rightarrow> heap \<Rightarrow> (nat DateRange list \<times> heap) option" where
  "AndCond_nextRanges conditions searchAfter h =
     (case AndCond_nextRanges_bounds conditions searchAfter None None h of
        None \<Rightarrow> None
      | Some ((earliestStart0, latestEnd), h1) \<Rightarrow>
          (case earliestStart0 of
             None \<Rightarrow> Some (processRanges (getTime h1) [], h1)
           | Some earliestStart \<Rightarrow>
               (let intersection0 = processRanges (getTime h1)
                                      [\<lparr>start = earliestStart, endDate = latestEnd\<rparr>]
                in case AndCond_nextRanges_intersect conditions earliestStart latestEnd
                          intersection0 h1 of
                     None \<Rightarrow> None
                   | Some (intersection, h2) \<Rightarrow>
                       Some (filter (\<lambda>r. h2 ! searchAfter < h2 ! start r) intersection, h2))))"

definition AndCond_obj :: "CondObj list \<Rightarrow> CondObj" where
  "AndCond_obj conditions =
     \<lparr>lastActiveRange = AndCond_lastActiveRange conditions,
      nextRanges = AndCond_nextRanges conditions\<rparr>"

subsection \<open>NthCond\<close>

text \<open>
  \<open>_nextRanges\<close> (the seek of the specification), named \<open>NthCond_seek\<close>: the \<open>for\<close> loop
  runs \<open>n - 1\<close> times (not at all when \<open>n \<le> 1\<close>).
\<close>

fun NthCond_seek_loop :: "CondObj \<Rightarrow> nat \<Rightarrow> nat DateRange list \<Rightarrow> heap \<Rightarrow> (nat DateRange list \<times> heap) option" where
  "NthCond_seek_loop cond 0 condRangeSet h = Some (condRangeSet, h)"
| "NthCond_seek_loop cond (Suc k) condRangeSet h =
     (case lastRange condRangeSet of
        None \<Rightarrow> Some (processRanges (getTime h) [], h)
      | Some lr \<Rightarrow>
          (case endDate lr of
             None \<Rightarrow> Some (processRanges (getTime h) [], h)
           | Some e \<Rightarrow>
               (case nextRanges cond e h of
                  None \<Rightarrow> None
                | Some (condRangeSet', h') \<Rightarrow> NthCond_seek_loop cond k condRangeSet' h')))"

definition NthCond_seek :: "CondObj \<Rightarrow> int \<Rightarrow> nat \<Rightarrow> heap \<Rightarrow> (nat DateRange list \<times> heap) option" where
  "NthCond_seek cond n searchAfter h =
     (case nextRanges cond searchAfter h of
        None \<Rightarrow> None
      | Some (condRangeSet, h') \<Rightarrow> NthCond_seek_loop cond (nat (n - 1)) condRangeSet h')"

partial_function (option) NthCond_lastActiveRange_while :: "CondObj \<Rightarrow> int \<Rightarrow> nat \<Rightarrow> nat DateRange list \<Rightarrow> nat DateRange list \<Rightarrow> heap \<Rightarrow> (nat DateRange option \<times> heap) option" where
  "NthCond_lastActiveRange_while cond n date candidate nextRs h =
     (case firstDate nextRs of
        None \<Rightarrow> Some (lastRange candidate, h)
      | Some fd \<Rightarrow>
          if h ! date \<ge> h ! fd then
            (case lastDate nextRs of
               None \<Rightarrow> Some (lastRange candidate, h)
             | Some ld \<Rightarrow>
                 (case NthCond_seek cond n ld h of
                    None \<Rightarrow> None
                  | Some (nextRs', h') \<Rightarrow>
                      NthCond_lastActiveRange_while cond n date nextRs nextRs' h'))
          else Some (lastRange candidate, h))"

declare NthCond_lastActiveRange_while.simps [code]

definition NthCond_lastActiveRange :: "nat DateRange list \<Rightarrow> int \<Rightarrow> CondObj \<Rightarrow> nat \<Rightarrow> heap \<Rightarrow> (nat DateRange option \<times> heap) option" where
  "NthCond_lastActiveRange validFrom n cond date h =
     (case firstDate validFrom of
        None \<Rightarrow> Some (None, h)
      | Some fd \<Rightarrow>
          if h ! date < h ! fd then Some (None, h)
          else
            (case lastDate validFrom of
               None \<Rightarrow> Some (lastRange validFrom, h)
             | Some ld \<Rightarrow>
                 (case NthCond_seek cond n ld h of
                    None \<Rightarrow> None
                  | Some (nextRs, h') \<Rightarrow>
                      NthCond_lastActiveRange_while cond n date validFrom nextRs h')))"

partial_function (option) NthCond_nextRanges_while :: "CondObj \<Rightarrow> int \<Rightarrow> nat \<Rightarrow> nat DateRange list \<Rightarrow> heap \<Rightarrow> (nat DateRange list \<times> heap) option" where
  "NthCond_nextRanges_while cond n searchAfter candidate h =
     (case firstDate candidate of
        None \<Rightarrow> Some (candidate, h)
      | Some fd \<Rightarrow>
          if h ! searchAfter \<ge> h ! fd then
            (case lastDate candidate of
               None \<Rightarrow> Some (processRanges (getTime h) [], h)
             | Some ld \<Rightarrow>
                 (case NthCond_seek cond n ld h of
                    None \<Rightarrow> None
                  | Some (candidate', h') \<Rightarrow>
                      NthCond_nextRanges_while cond n searchAfter candidate' h'))
          else Some (candidate, h))"

declare NthCond_nextRanges_while.simps [code]

definition NthCond_nextRanges :: "nat \<Rightarrow> int \<Rightarrow> CondObj \<Rightarrow> nat \<Rightarrow> heap \<Rightarrow> (nat DateRange list \<times> heap) option" where
  "NthCond_nextRanges startDate n cond searchAfter h =
     (case NthCond_seek cond n startDate h of
        None \<Rightarrow> None
      | Some (candidate, h') \<Rightarrow> NthCond_nextRanges_while cond n searchAfter candidate h')"

definition NthCond_obj :: "nat \<Rightarrow> nat DateRange list \<Rightarrow> int \<Rightarrow> CondObj \<Rightarrow> CondObj" where
  "NthCond_obj startDate validFrom n cond =
     \<lparr>lastActiveRange = NthCond_lastActiveRange validFrom n cond,
      nextRanges = NthCond_nextRanges startDate n cond\<rparr>"

subsection \<open>FirstAfterStartCond\<close>

definition FirstAfterStartCond_lastActiveRange :: "CondObj \<Rightarrow> CondObj \<Rightarrow> bool \<Rightarrow> nat \<Rightarrow> heap \<Rightarrow> (nat DateRange option \<times> heap) option" where
  "FirstAfterStartCond_lastActiveRange refCond relativeCond inclusive date h =
     (case lastActiveRange relativeCond date h of
        None \<Rightarrow> None
      | Some (earliestRelativeRange, h1) \<Rightarrow>
          (case earliestRelativeRange of
             None \<Rightarrow> Some (None, h1)
           | Some relR \<Rightarrow>
               (let h2 = (if \<not> inclusive then oneMsEarlier (start relR) h1 else h1) in
                case lastActiveRange refCond (start relR) h2 of
                  None \<Rightarrow> None
                | Some (earliestRefRange, h3) \<Rightarrow>
                    (case earliestRefRange of
                       None \<Rightarrow> Some (None, h3)
                     | Some refR \<Rightarrow>
                         (let h4 = (if inclusive then oneMsEarlier (start refR) h3 else h3) in
                          case nextRanges relativeCond (start refR) h4 of
                            None \<Rightarrow> None
                          | Some (relRanges, h5) \<Rightarrow>
                              if length relRanges = 0 then Some (None, h5)
                              else Some (Some (hd relRanges), h5))))))"

text \<open>The \<open>for\<close> loop of \<open>nextRanges\<close> over the next ranges of \<open>refCond\<close>.\<close>

fun FirstAfterStartCond_nextRanges_loop :: "CondObj \<Rightarrow> bool \<Rightarrow> nat DateRange list \<Rightarrow> nat DateRange list \<Rightarrow> heap \<Rightarrow> (nat DateRange list \<times> heap) option" where
  "FirstAfterStartCond_nextRanges_loop relativeCond inclusive [] relativeRanges h = Some (relativeRanges, h)"
| "FirstAfterStartCond_nextRanges_loop relativeCond inclusive (refRange # rest) relativeRanges h =
     (let h1 = (if inclusive then oneMsEarlier (start refRange) h else h) in
      case nextRanges relativeCond (start refRange) h1 of
        None \<Rightarrow> None
      | Some (childRanges, h2) \<Rightarrow>
          FirstAfterStartCond_nextRanges_loop relativeCond inclusive rest
            (unionImpl (getTime h2) relativeRanges childRanges) h2)"

definition FirstAfterStartCond_nextRanges_rest :: "CondObj \<Rightarrow> CondObj \<Rightarrow> bool \<Rightarrow> nat \<Rightarrow> heap \<Rightarrow> (nat DateRange list \<times> heap) option" where
  "FirstAfterStartCond_nextRanges_rest refCond relativeCond inclusive searchAfter h =
     (case nextRanges refCond searchAfter h of
        None \<Rightarrow> None
      | Some (refRanges, h1) \<Rightarrow>
          FirstAfterStartCond_nextRanges_loop relativeCond inclusive refRanges
            (processRanges (getTime h1) []) h1)"

definition FirstAfterStartCond_nextRanges :: "CondObj \<Rightarrow> CondObj \<Rightarrow> bool \<Rightarrow> nat \<Rightarrow> heap \<Rightarrow> (nat DateRange list \<times> heap) option" where
  "FirstAfterStartCond_nextRanges refCond relativeCond inclusive searchAfter h =
     (case lastActiveRange refCond searchAfter h of
        None \<Rightarrow> None
      | Some (refRange, h1) \<Rightarrow>
          (case refRange of
             None \<Rightarrow> FirstAfterStartCond_nextRanges_rest refCond relativeCond inclusive searchAfter h1
           | Some refR \<Rightarrow>
               if inDateRangeImpl (getTime h1) searchAfter refR then
                 (let h2 = (if inclusive then oneMsEarlier (start refR) h1 else h1) in
                  case nextRanges relativeCond (start refR) h2 of
                    None \<Rightarrow> None
                  | Some (rangeSet, h3) \<Rightarrow>
                      if (case firstDate rangeSet of None \<Rightarrow> False
                          | Some fd \<Rightarrow> h3 ! searchAfter < h3 ! fd)
                      then Some (rangeSet, h3)
                      else FirstAfterStartCond_nextRanges_rest refCond relativeCond inclusive
                             searchAfter h3)
               else FirstAfterStartCond_nextRanges_rest refCond relativeCond inclusive
                      searchAfter h1))"

definition FirstAfterStartCond_obj :: "CondObj \<Rightarrow> CondObj \<Rightarrow> bool \<Rightarrow> CondObj" where
  "FirstAfterStartCond_obj refCond relativeCond inclusive =
     \<lparr>lastActiveRange = FirstAfterStartCond_lastActiveRange refCond relativeCond inclusive,
      nextRanges = FirstAfterStartCond_nextRanges refCond relativeCond inclusive\<rparr>"

subsection \<open>The object of a condition\<close>

primrec obj :: "Cond \<Rightarrow> CondObj" where
  "obj (TimeDeltaCond delta validFrom) = TimeDeltaCond_obj validFrom"
| "obj (TimeBetweenCond rng) =
     freshCond (TimeBetweenCond_lastActiveRange rng) (TimeBetweenCond_nextRanges rng)"
| "obj (MonthBetweenCond s e) =
     freshCond (MonthBetweenCond_lastActiveRange s e) (MonthBetweenCond_nextRanges s e)"
| "obj (DateBetweenCond s e) =
     freshCond (DateBetweenCond_lastActiveRange s e) (DateBetweenCond_nextRanges s e)"
| "obj (DayBetweenCond s e) =
     freshCond (DayBetweenCond_lastActiveRange s e) (DayBetweenCond_nextRanges s e)"
| "obj (DayPartCond dayPart cond) = obj cond"
| "obj (TimeSpanCond mo d h mi s) =
     freshCond (TimeSpanCond_lastActiveRange mo d h mi s) (TimeSpanCond_nextRanges mo d h mi s)"
| "obj (WeekDay weekDayNumber) =
     freshCond (WeekDay_lastActiveRange weekDayNumber) (WeekDay_nextRanges weekDayNumber)"
| "obj (OrCond conditions) = OrCond_obj (map obj conditions)"
| "obj (AndCond conditions) = AndCond_obj (map obj conditions)"
| "obj (NthCond startDate validFrom n cond) = NthCond_obj startDate validFrom n (obj cond)"
| "obj (FirstAfterStartCond refCond relativeCond inclusive) =
     FirstAfterStartCond_obj (obj refCond) (obj relativeCond) inclusive"

subsection \<open>The constructors that create Date objects\<close>

definition newTimeDeltaCond :: "nat \<Rightarrow> int \<Rightarrow> heap \<Rightarrow> Cond \<times> heap" where
  "newTimeDeltaCond startTime delta h =
     (let (validFrom, h') = newDate (h ! startTime + delta) h in (TimeDeltaCond delta validFrom, h'))"

definition newNthCond :: "nat \<Rightarrow> int \<Rightarrow> Cond \<Rightarrow> heap \<Rightarrow> (Cond \<times> heap) option" where
  "newNthCond startDate n cond h =
     (case NthCond_seek (obj cond) n startDate h of
        None \<Rightarrow> None
      | Some (validFrom, h') \<Rightarrow> Some (NthCond startDate validFrom n cond, h'))"

subsection \<open>Queries at an instant\<close>

text \<open>
  A query of a caller: a fresh Date object with the time value \<open>t\<close> is passed to the
  condition, and the time values of the result are read from the store after the call.
\<close>

definition lastActiveRangeAt :: "Cond \<Rightarrow> int \<Rightarrow> heap \<Rightarrow> int DateRange option option" where
  "lastActiveRangeAt c t h =
     (let (date, h0) = newDate t h in
      case lastActiveRange (obj c) date h0 of
        None \<Rightarrow> None
      | Some (r, h') \<Rightarrow> Some (map_option (rangeTimes (getTime h')) r))"

definition nextRangesAt :: "Cond \<Rightarrow> int \<Rightarrow> heap \<Rightarrow> int DateRange list option" where
  "nextRangesAt c t h =
     (let (date, h0) = newDate t h in
      case nextRanges (obj c) date h0 of
        None \<Rightarrow> None
      | Some (rs, h') \<Rightarrow> Some (map (rangeTimes (getTime h')) rs))"

definition inRangeAt :: "Cond \<Rightarrow> int \<Rightarrow> heap \<Rightarrow> bool option" where
  "inRangeAt c t h =
     (let (date, h0) = newDate t h in
      case inRange (obj c) date h0 of None \<Rightarrow> None | Some (b, h') \<Rightarrow> Some b)"

text \<open>The store after a query.\<close>

definition heapAfterLastActiveRange :: "Cond \<Rightarrow> int \<Rightarrow> heap \<Rightarrow> heap option" where
  "heapAfterLastActiveRange c t h =
     (let (date, h0) = newDate t h in
      case lastActiveRange (obj c) date h0 of None \<Rightarrow> None | Some (r, h') \<Rightarrow> Some h')"

section \<open>Calendar notions of the specification\<close>

text \<open>
  The start of the day of an instant, an instant moved by a number of days, and the
  instant of a civil date and time (month counted from 1, as dates are written).
\<close>

definition startOfDay :: "int \<Rightarrow> int" where
  "startOfDay t = t - t mod msPerDay"

definition addDays :: "int \<Rightarrow> int \<Rightarrow> int" where
  "addDays t k = t + k * msPerDay"

definition atTime :: "int \<Rightarrow> int \<Rightarrow> int \<Rightarrow> int \<Rightarrow> int \<Rightarrow> int" where
  "atTime y m d h mi = MakeDate (MakeDay y (m - 1) d) (MakeTime h mi 0 0)"




section \<open>Verification: range sets\<close>

lemma chain_Cons:
  "chain (r # rs) =
     (wfRange r \<and> (rs \<noteq> [] \<longrightarrow> (case endDate r of None \<Rightarrow> False | Some e \<Rightarrow> e < start (hd rs))) \<and>
      chain rs)"
  by (cases rs) (auto split: option.splits)

lemma chain_tail: "chain (r # rs) \<Longrightarrow> chain rs"
  by (simp add: chain_Cons)

lemma chain_later:
  "chain (r # rs) \<Longrightarrow> x \<in> set rs \<Longrightarrow> \<exists>e. endDate r = Some e \<and> start r < e \<and> e < start x"
proof (induction rs arbitrary: r)
  case Nil
  then show ?case by simp
next
  case (Cons s rest)
  from Cons.prems(1) obtain e where e: "endDate r = Some e" "start r < e" "e < start s"
    by (auto simp: wfRange_def split: option.splits)
  show ?case
  proof (cases "x = s")
    case True
    with e show ?thesis by simp
  next
    case False
    with Cons.prems have "x \<in> set rest" by simp
    moreover from Cons.prems(1) have "chain (s # rest)" by simp
    ultimately obtain e' where "endDate s = Some e'" "start s < e'" "e' < start x"
      using Cons.IH by blast
    with e show ?thesis by auto
  qed
qed

lemma chain_wf: "chain rs \<Longrightarrow> list_all wfRange rs"
  by (induction rs rule: chain.induct) auto

lemma chain_sorted: "chain rs \<Longrightarrow> sortedByStart rs"
  unfolding sortedByStart_def
proof (induction rs)
  case Nil
  then show ?case by simp
next
  case (Cons r rs)
  then show ?case using chain_later[of r rs] chain_tail[of r rs] by fastforce
qed

lemma chain_disjoint: "chain rs \<Longrightarrow> disjointRanges rs"
  unfolding disjointRanges_def
proof (induction rs)
  case Nil
  then show ?case by simp
next
  case (Cons r rs)
  then show ?case using chain_later[of r rs] chain_tail[of r rs] by fastforce
qed

lemma chain_nonTouching: "chain rs \<Longrightarrow> nonTouching rs"
  unfolding nonTouching_def
  by (induction rs rule: chain.induct) (auto split: option.splits)

lemma chain_openOnlyLast: "chain rs \<Longrightarrow> openOnlyLast rs"
  unfolding openOnlyLast_def
  by (induction rs rule: chain.induct) (auto split: option.splits)

lemma chain_canonical: "chain rs \<Longrightarrow> canonical rs"
  unfolding canonical_def
  by (simp add: chain_wf chain_sorted chain_disjoint chain_nonTouching chain_openOnlyLast)

lemma canonical_chain: "canonical rs \<Longrightarrow> chain rs"
  unfolding canonical_def disjointRanges_def nonTouching_def sortedByStart_def openOnlyLast_def
  by (induction rs rule: chain.induct) (auto split: option.splits)

lemma mergeLoop_hd:
  "mergeLoop gt cur xs \<noteq> [] \<and> start (hd (mergeLoop gt cur xs)) = start cur"
  by (induction xs arbitrary: cur) (auto split: option.splits)

lemma mergeLoop_chain:
  "wfRange (rangeTimes gt cur) \<Longrightarrow> list_all (\<lambda>r. wfRange (rangeTimes gt r)) xs \<Longrightarrow>
   sorted (map (\<lambda>r. gt (start r)) (cur # xs)) \<Longrightarrow>
   chain (map (rangeTimes gt) (mergeLoop gt cur xs))"
proof (induction xs arbitrary: cur)
  case Nil
  then show ?case by simp
next
  case (Cons nxt rest)
  have srt: "sorted (map (\<lambda>r. gt (start r)) (nxt # rest))"
    using Cons.prems(3) by simp
  have le: "gt (start cur) \<le> gt (start nxt)" using Cons.prems(3) by simp
  have wfn: "wfRange (rangeTimes gt nxt)" and wfr: "list_all (\<lambda>r. wfRange (rangeTimes gt r)) rest"
    using Cons.prems(2) by simp_all
  have srt': "(\<forall>x\<in>set rest. gt (start cur) \<le> gt (start x)) \<and> sorted (map (\<lambda>r. gt (start r)) rest)"
    using Cons.prems(3) by auto
  show ?case
  proof (cases "case endDate cur of None \<Rightarrow> True | Some ce \<Rightarrow> gt (start nxt) \<le> gt ce")
    case True
    show ?thesis
    proof (cases "endDate nxt")
      case None
      have "wfRange (rangeTimes gt (cur\<lparr>endDate := None\<rparr>))"
        by (simp add: wfRange_def rangeTimes_def)
      then have "chain (map (rangeTimes gt) (mergeLoop gt (cur\<lparr>endDate := None\<rparr>) rest))"
        by (rule Cons.IH) (simp_all add: wfr srt')
      with True None show ?thesis by simp
    next
      case (Some ne)
      show ?thesis
      proof (cases "endDate cur")
        case None
        have "chain (map (rangeTimes gt) (mergeLoop gt cur rest))"
          by (rule Cons.IH) (simp_all add: Cons.prems(1) wfr srt')
        with True Some None show ?thesis by simp
      next
        case (Some ce)
        note ce = this
        show ?thesis
        proof (cases "gt ne > gt ce")
          case gtr: True
          have "wfRange (rangeTimes gt (cur\<lparr>endDate := Some ne\<rparr>))"
            using Cons.prems(1) ce gtr by (simp add: wfRange_def rangeTimes_def)
          then have "chain (map (rangeTimes gt) (mergeLoop gt (cur\<lparr>endDate := Some ne\<rparr>) rest))"
            by (rule Cons.IH) (simp_all add: wfr srt')
          with True \<open>endDate nxt = Some ne\<close> ce gtr show ?thesis by simp
        next
          case False
          have "chain (map (rangeTimes gt) (mergeLoop gt cur rest))"
            by (rule Cons.IH) (simp_all add: Cons.prems(1) wfr srt')
          with True \<open>endDate nxt = Some ne\<close> ce False show ?thesis by simp
        qed
      qed
    qed
  next
    case False
    then obtain ce where ce: "endDate cur = Some ce" "gt ce < gt (start nxt)"
      by (auto split: option.splits)
    have ih: "chain (map (rangeTimes gt) (mergeLoop gt nxt rest))"
      using srt by (intro Cons.IH) (simp_all add: wfn wfr)
    have hd: "mergeLoop gt nxt rest \<noteq> []" "start (hd (mergeLoop gt nxt rest)) = start nxt"
      using mergeLoop_hd[of gt nxt rest] by simp_all
    have hd': "start (hd (map (rangeTimes gt) (mergeLoop gt nxt rest))) = gt (start nxt)"
      using hd by (simp add: hd_map rangeTimes_def)
    have "endDate (rangeTimes gt cur) = Some (gt ce)"
      using ce by (simp add: rangeTimes_def)
    then have "chain (rangeTimes gt cur # map (rangeTimes gt) (mergeLoop gt nxt rest))"
      using ih hd(1) hd' ce(2) Cons.prems(1) by (simp add: chain_Cons)
    with False show ?thesis by simp
  qed
qed

lemma mergeSorted_chain:
  "list_all (\<lambda>r. wfRange (rangeTimes gt r)) xs \<Longrightarrow> sorted (map (\<lambda>r. gt (start r)) xs) \<Longrightarrow>
   chain (map (rangeTimes gt) (mergeSortedRanges gt xs))"
  unfolding mergeSortedRanges_def
  by (cases xs) (simp_all add: mergeLoop_chain)

lemma sortMerge_chain:
  "list_all (\<lambda>r. wfRange (rangeTimes gt r)) xs \<Longrightarrow>
   chain (map (rangeTimes gt) (mergeSortedRanges gt (sortByStart gt xs)))"
  by (rule mergeSorted_chain) (simp_all add: sortByStart_def list_all_iff)

lemma processRanges_chain:
  "list_all (\<lambda>r. wfRange (rangeTimes gt r)) xs \<Longrightarrow> chain (map (rangeTimes gt) (processRanges gt xs))"
  unfolding processRanges_def by (simp add: sortMerge_chain)

lemma unionImpl_chain:
  assumes "chain (map (rangeTimes gt) A)" "chain (map (rangeTimes gt) B)"
  shows "chain (map (rangeTimes gt) (unionImpl gt A B))"
proof -
  have "list_all (\<lambda>r. wfRange (rangeTimes gt r)) (A @ B)"
    using chain_wf[OF assms(1)] chain_wf[OF assms(2)] by (auto simp: list_all_iff)
  then show ?thesis unfolding unionImpl_def using assms by (simp add: sortMerge_chain)
qed

lemma chain_map_Cons:
  "chain (map (rangeTimes gt) (a # as)) \<Longrightarrow>
     chain (map (rangeTimes gt) as) \<and>
     (case endDate a of None \<Rightarrow> as = [] 
      | Some e \<Rightarrow> gt (start a) < gt e \<and> (as \<noteq> [] \<longrightarrow> gt e < gt (start (hd as))))"
  by (cases as) (auto simp: rangeTimes_def wfRange_def split: option.splits)

lemma chain_start_mono:
  "chain (map (rangeTimes gt) (a # as)) \<Longrightarrow> as \<noteq> [] \<Longrightarrow> gt (start a) < gt (start (hd as))"
  by (drule chain_map_Cons) (auto split: option.splits)

lemma intersectionImpl_chain_aux:
  "chain (map (rangeTimes gt) A) \<Longrightarrow> chain (map (rangeTimes gt) B) \<Longrightarrow>
   chain (intersectionImpl gt A B) \<and>
   (\<forall>r \<in> set (intersectionImpl gt A B).
      A \<noteq> [] \<and> B \<noteq> [] \<and> gt (start (hd A)) \<le> start r \<and> gt (start (hd B)) \<le> start r)"
proof (induction gt A B rule: intersectionImpl.induct)
  case (1 gt rangesB)
  then show ?case by simp
next
  case (2 gt rangeA restA)
  then show ?case by simp
next
  case (3 gt rangeA restA rangeB restB)
  define startA where "startA = gt (start rangeA)"
  define startB where "startB = gt (start rangeB)"
  define endA where "endA = map_option gt (endDate rangeA)"
  define endB where "endB = map_option gt (endDate rangeB)"
  define iS where "iS = max startA startB"
  define ie where "ie = endMin endA endB"
  define pushed where "pushed = (if endLess (Some iS) ie then [\<lparr>start = iS, endDate = ie\<rparr>] else [])"
  define rec where "rec =
     (if endLess endA endB then intersectionImpl gt restA (rangeB # restB)
      else if endLess endB endA then intersectionImpl gt (rangeA # restA) restB
      else intersectionImpl gt restA restB)"
  have res: "intersectionImpl gt (rangeA # restA) (rangeB # restB) = pushed @ rec"
    by (simp add: Let_def pushed_def rec_def iS_def ie_def startA_def startB_def endA_def endB_def)
  note cA = chain_map_Cons[OF "3.prems"(1)]
  note cB = chain_map_Cons[OF "3.prems"(2)]
  have chA: "chain (map (rangeTimes gt) restA)" and chB: "chain (map (rangeTimes gt) restB)"
    using cA cB by simp_all
  \<comment> \<open>the recursive result is a chain whose starts are after the pushed end\<close>
  have rec_ok: "chain rec \<and> (\<forall>r \<in> set rec. startA \<le> start r \<and> startB \<le> start r \<and>
                  (\<exists>e. ie = Some e \<and> e < start r))"
  proof (cases "endLess endA endB")
    case True
    then obtain ea where ea: "endDate rangeA = Some ea" "endA = Some (gt ea)"
      by (cases "endDate rangeA") (auto simp: endA_def)
    have iee: "ie = Some (gt ea)" using True ea by (cases endB) (auto simp: ie_def min_def)
    have ih: "chain (intersectionImpl gt restA (rangeB # restB)) \<and>
      (\<forall>r \<in> set (intersectionImpl gt restA (rangeB # restB)).
        restA \<noteq> [] \<and> gt (start (hd restA)) \<le> start r \<and> gt (start rangeB) \<le> start r)"
      using "3.IH"(1)[OF startA_def startB_def endA_def endB_def iS_def ie_def pushed_def True chA "3.prems"(2)]
      by simp
    have "rec = intersectionImpl gt restA (rangeB # restB)" using True by (simp add: rec_def)
    moreover have "\<And>r. r \<in> set (intersectionImpl gt restA (rangeB # restB)) \<Longrightarrow> gt ea < start r \<and> startA \<le> start r"
    proof -
      fix r assume "r \<in> set (intersectionImpl gt restA (rangeB # restB))"
      with ih have ne: "restA \<noteq> []" and le: "gt (start (hd restA)) \<le> start r" by auto
      from cA ea ne have "gt (start rangeA) < gt ea" "gt ea < gt (start (hd restA))" by auto
      with le show "gt ea < start r \<and> startA \<le> start r" by (simp add: startA_def)
    qed
    ultimately show ?thesis using ih iee by (auto simp: startB_def)
  next
    case nAB: False
    show ?thesis
    proof (cases "endLess endB endA")
      case True
      then obtain eb where eb: "endDate rangeB = Some eb" "endB = Some (gt eb)"
        by (cases "endDate rangeB") (auto simp: endB_def)
      have iee: "ie = Some (gt eb)" using True eb by (cases endA) (auto simp: ie_def min_def)
      have ih: "chain (intersectionImpl gt (rangeA # restA) restB) \<and>
        (\<forall>r \<in> set (intersectionImpl gt (rangeA # restA) restB).
          restB \<noteq> [] \<and> gt (start rangeA) \<le> start r \<and> gt (start (hd restB)) \<le> start r)"
        using "3.IH"(2)[OF startA_def startB_def endA_def endB_def iS_def ie_def pushed_def nAB True "3.prems"(1) chB]
        by simp
      have "rec = intersectionImpl gt (rangeA # restA) restB" using True nAB by (simp add: rec_def)
      moreover have "\<And>r. r \<in> set (intersectionImpl gt (rangeA # restA) restB) \<Longrightarrow> gt eb < start r \<and> startB \<le> start r"
      proof -
        fix r assume "r \<in> set (intersectionImpl gt (rangeA # restA) restB)"
        with ih have ne: "restB \<noteq> []" and le: "gt (start (hd restB)) \<le> start r" by auto
        from cB eb ne have "gt (start rangeB) < gt eb" "gt eb < gt (start (hd restB))" by auto
        with le show "gt eb < start r \<and> startB \<le> start r" by (simp add: startB_def)
      qed
      ultimately show ?thesis using ih iee by (auto simp: startA_def)
    next
      case nBA: False
      have ih: "chain (intersectionImpl gt restA restB) \<and>
        (\<forall>r \<in> set (intersectionImpl gt restA restB).
          restA \<noteq> [] \<and> restB \<noteq> [] \<and> gt (start (hd restA)) \<le> start r \<and> gt (start (hd restB)) \<le> start r)"
        using "3.IH"(3)[OF startA_def startB_def endA_def endB_def iS_def ie_def pushed_def nAB nBA chA chB]
        by simp
      have req: "rec = intersectionImpl gt restA restB" using nAB nBA by (simp add: rec_def)
      show ?thesis
      proof (cases "endDate rangeA")
        case None
        with cA have "restA = []" by simp
        then show ?thesis using req by simp
      next
        case (Some ea)
        then obtain eb where eb: "endDate rangeB = Some eb" "gt eb = gt ea"
          using nAB nBA by (cases "endDate rangeB") (auto simp: endA_def endB_def)
        have iee: "ie = Some (gt ea)" using Some eb by (simp add: ie_def endA_def endB_def)
        have "\<And>r. r \<in> set (intersectionImpl gt restA restB) \<Longrightarrow> gt ea < start r \<and> startA \<le> start r \<and> startB \<le> start r"
        proof -
          fix r assume "r \<in> set (intersectionImpl gt restA restB)"
          with ih have ne: "restA \<noteq> []" "restB \<noteq> []" and le: "gt (start (hd restA)) \<le> start r" "gt (start (hd restB)) \<le> start r" by auto
          from cA Some ne have "gt (start rangeA) < gt ea" "gt ea < gt (start (hd restA))" by auto
          moreover from cB eb ne have "gt (start rangeB) < gt eb" by auto
          ultimately show "gt ea < start r \<and> startA \<le> start r \<and> startB \<le> start r"
            using le eb by (simp add: startA_def startB_def)
        qed
        then show ?thesis using ih iee req by auto
      qed
    qed
  qed
  have "chain (pushed @ rec)"
  proof (cases "endLess (Some iS) ie")
    case True
    then have p: "pushed = [\<lparr>start = iS, endDate = ie\<rparr>]" by (simp add: pushed_def)
    have wf: "wfRange \<lparr>start = iS, endDate = ie\<rparr>" using True by (cases ie) (auto simp: wfRange_def)
    show ?thesis
    proof (cases rec)
      case Nil
      then show ?thesis using p wf by simp
    next
      case (Cons h t)
      with rec_ok obtain e where "ie = Some e" "e < start h" by auto
      then show ?thesis using p wf rec_ok Cons by simp
    qed
  next
    case False
    then show ?thesis using rec_ok by (simp add: pushed_def)
  qed
  moreover have "\<forall>r \<in> set (pushed @ rec). startA \<le> start r \<and> startB \<le> start r"
    using rec_ok by (auto simp: pushed_def iS_def)
  ultimately show ?case unfolding res by (simp add: startA_def startB_def)
qed

lemma intersectionImpl_chain:
  "chain (map (rangeTimes gt) A) \<Longrightarrow> chain (map (rangeTimes gt) B) \<Longrightarrow>
   chain (intersectionImpl gt A B)"
  using intersectionImpl_chain_aux by blast

subsection \<open>The instants of the results, and open-ended ranges\<close>

lemma covers_Nil: "covers gt [] t = False"
  by (simp add: covers_def)

lemma covers_Cons:
  "covers gt (r # rs) t =
     ((gt (start r) \<le> t \<and> (case endDate r of None \<Rightarrow> True | Some e \<Rightarrow> t < gt e)) \<or> covers gt rs t)"
  by (cases "endDate r") (simp_all add: covers_def inDateRangeImpl_def rangeTimes_def)

lemma covers_set:
  "covers gt rs t =
     (\<exists>r \<in> set rs. gt (start r) \<le> t \<and> (case endDate r of None \<Rightarrow> True | Some e \<Rightarrow> t < gt e))"
  by (induction rs) (simp_all add: covers_Nil covers_Cons)

lemma covers_append: "covers gt (xs @ ys) t = (covers gt xs t \<or> covers gt ys t)"
  by (auto simp: covers_set)

lemma covers_id: "covers (\<lambda>x. x) (map (rangeTimes gt) rs) t = covers gt rs t"
  by (induction rs) (simp_all add: covers_Nil covers_Cons rangeTimes_def split: option.splits)

lemma mergeLoop_open: "endDate cur = None \<Longrightarrow> mergeLoop gt cur xs = [cur]"
proof (induction xs)
  case Nil
  show ?case by simp
next
  case (Cons nxt rest)
  have eq: "cur\<lparr>endDate := None\<rparr> = cur" using Cons.prems by simp
  show ?case using Cons by (simp add: eq split: option.splits)
qed

lemma mergeLoop_covers:
  "sorted (map (\<lambda>r. gt (start r)) (cur # xs)) \<Longrightarrow>
   covers gt (mergeLoop gt cur xs) t = covers gt (cur # xs) t"
proof (induction xs arbitrary: cur)
  case Nil
  show ?case by simp
next
  case (Cons nxt rest)
  have le: "gt (start cur) \<le> gt (start nxt)" using Cons.prems by simp
  have srt: "\<And>c. start c = start cur \<Longrightarrow> sorted (map (\<lambda>r. gt (start r)) (c # rest))"
    using Cons.prems by auto
  have srt2: "sorted (map (\<lambda>r. gt (start r)) (nxt # rest))" using Cons.prems by simp
  show ?case
  proof (cases "case endDate cur of None \<Rightarrow> True | Some ce \<Rightarrow> gt (start nxt) \<le> gt ce")
    case False
    then show ?thesis using Cons.IH[OF srt2] by (simp add: covers_Cons)
  next
    case True
    show ?thesis
    proof (cases "endDate nxt")
      case None
      have "mergeLoop gt cur (nxt # rest) = mergeLoop gt (cur\<lparr>endDate := None\<rparr>) rest"
        using True None by simp
      also have "covers gt \<dots> t = covers gt (cur\<lparr>endDate := None\<rparr> # rest) t"
        by (rule Cons.IH[OF srt]) simp
      also have "\<dots> = covers gt (cur # nxt # rest) t"
        using True None le by (auto simp: covers_Cons split: option.splits)
      finally show ?thesis .
    next
      case (Some ne)
      show ?thesis
      proof (cases "endDate cur")
        case None
        then show ?thesis using Some le Cons.IH[OF srt, of cur] 
          by (auto simp: covers_Cons split: option.splits)
      next
        case (Some ce)
        note ce = this
        show ?thesis
        proof (cases "gt ne > gt ce")
          case True
          have "mergeLoop gt cur (nxt # rest) = mergeLoop gt (cur\<lparr>endDate := Some ne\<rparr>) rest"
            using \<open>case endDate cur of None \<Rightarrow> True | Some ce \<Rightarrow> gt (start nxt) \<le> gt ce\<close> ce \<open>endDate nxt = Some ne\<close> True by simp
          also have "covers gt \<dots> t = covers gt (cur\<lparr>endDate := Some ne\<rparr> # rest) t"
            by (rule Cons.IH[OF srt]) simp
          also have "\<dots> = covers gt (cur # nxt # rest) t"
            using \<open>case endDate cur of None \<Rightarrow> True | Some ce \<Rightarrow> gt (start nxt) \<le> gt ce\<close> ce \<open>endDate nxt = Some ne\<close> True le
            by (auto simp: covers_Cons)
          finally show ?thesis .
        next
          case False
          have "mergeLoop gt cur (nxt # rest) = mergeLoop gt cur rest"
            using \<open>case endDate cur of None \<Rightarrow> True | Some ce \<Rightarrow> gt (start nxt) \<le> gt ce\<close> ce \<open>endDate nxt = Some ne\<close> False by simp
          also have "covers gt \<dots> t = covers gt (cur # rest) t"
            by (rule Cons.IH[OF srt]) simp
          also have "\<dots> = covers gt (cur # nxt # rest) t"
            using \<open>case endDate cur of None \<Rightarrow> True | Some ce \<Rightarrow> gt (start nxt) \<le> gt ce\<close> ce \<open>endDate nxt = Some ne\<close> False le
            by (auto simp: covers_Cons)
          finally show ?thesis .
        qed
      qed
    qed
  qed
qed

lemma sortMerge_covers:
  "covers gt (mergeSortedRanges gt (sortByStart gt xs)) t = covers gt xs t"
proof (cases "sortByStart gt xs")
  case Nil
  then have "set xs = {}" unfolding sortByStart_def by (metis set_sort set_empty)
  then have "xs = []" by simp
  then show ?thesis by (simp add: mergeSortedRanges_def sortByStart_def)
next
  case (Cons r rest)
  have "sorted (map (\<lambda>r. gt (start r)) (sortByStart gt xs))" by (simp add: sortByStart_def)
  then have "covers gt (mergeLoop gt r rest) t = covers gt (r # rest) t"
    unfolding Cons by (rule mergeLoop_covers)
  also have "\<dots> = covers gt xs t"
    unfolding Cons[symmetric] by (simp add: covers_set sortByStart_def)
  finally show ?thesis by (simp add: mergeSortedRanges_def Cons)
qed

lemma processRanges_covers: "covers gt (processRanges gt xs) t = covers gt xs t"
  unfolding processRanges_def by (simp add: sortMerge_covers)

lemma unionImpl_covers: "covers gt (unionImpl gt A B) t = (covers gt A t \<or> covers gt B t)"
  unfolding unionImpl_def by (simp add: sortMerge_covers covers_append covers_Nil)


lemma mergeLoop_absorb:
  "sorted (map (\<lambda>r. gt (start r)) (cur # xs)) \<Longrightarrow> r \<in> set (cur # xs) \<Longrightarrow> endDate r = None \<Longrightarrow>
   endDate (last (mergeLoop gt cur xs)) = None \<and>
   (\<forall>q \<in> set (mergeLoop gt cur xs). gt (start q) \<le> gt (start r))"
proof (induction xs arbitrary: cur)
  case Nil
  then show ?case by simp
next
  case (Cons nxt rest)
  have le: "gt (start cur) \<le> gt (start nxt)" using Cons.prems by simp
  have ler: "gt (start cur) \<le> gt (start r)" using Cons.prems(1,2) by auto
  have srt: "\<And>c. start c = start cur \<Longrightarrow> sorted (map (\<lambda>r. gt (start r)) (c # rest))"
    using Cons.prems by auto
  have srt2: "sorted (map (\<lambda>r. gt (start r)) (nxt # rest))" using Cons.prems by simp
  show ?case
  proof (cases "endDate cur")
    case None
    have "mergeLoop gt cur (nxt # rest) = [cur]" using None by (rule mergeLoop_open)
    then show ?thesis using None ler by simp
  next
    case (Some ce)
    then have rne: "r \<noteq> cur" using Cons.prems(3) by auto
    then have rin: "r \<in> set (nxt # rest)" using Cons.prems(2) by simp
    show ?thesis
    proof (cases "gt (start nxt) \<le> gt ce")
      case False
      have ne: "mergeLoop gt nxt rest \<noteq> []" using mergeLoop_hd by blast
      from False Some have "mergeLoop gt cur (nxt # rest) = cur # mergeLoop gt nxt rest" by simp
      then show ?thesis using Cons.IH[OF srt2 rin Cons.prems(3)] ne ler by simp
    next
      case True
      show ?thesis
      proof (cases "endDate nxt")
        case None
        have "mergeLoop gt cur (nxt # rest) = [cur\<lparr>endDate := None\<rparr>]"
          using True Some None by (simp add: mergeLoop_open)
        then show ?thesis using ler by simp
      next
        case (Some ne)
        then have "r \<noteq> nxt" using Cons.prems(3) by auto
        with rin have rr: "r \<in> set rest" by simp
        have ih: "\<And>c. start c = start cur \<Longrightarrow> endDate (last (mergeLoop gt c rest)) = None \<and>
              (\<forall>q \<in> set (mergeLoop gt c rest). gt (start q) \<le> gt (start r))"
          using Cons.IH[OF srt _ Cons.prems(3)] rr by simp
        have "mergeLoop gt cur (nxt # rest) =
               (if gt ne > gt ce then mergeLoop gt (cur\<lparr>endDate := Some ne\<rparr>) rest
                else mergeLoop gt cur rest)"
          using True Some \<open>endDate cur = Some ce\<close> by simp
        then show ?thesis using ih[of cur] ih[of "cur\<lparr>endDate := Some ne\<rparr>"] by simp
      qed
    qed
  qed
qed

lemma sortMerge_absorb:
  assumes "r \<in> set xs" "endDate r = None"
  shows "mergeSortedRanges gt (sortByStart gt xs) \<noteq> [] \<and>
         endDate (last (mergeSortedRanges gt (sortByStart gt xs))) = None \<and>
         (\<forall>q \<in> set (mergeSortedRanges gt (sortByStart gt xs)). gt (start q) \<le> gt (start r))"
proof (cases "sortByStart gt xs")
  case Nil
  then have "set xs = {}" unfolding sortByStart_def by (metis set_sort set_empty)
  then show ?thesis using assms by simp
next
  case (Cons c rest)
  have s: "sorted (map (\<lambda>r. gt (start r)) (c # rest))"
    unfolding Cons[symmetric] by (simp add: sortByStart_def)
  have "r \<in> set (c # rest)" unfolding Cons[symmetric] using assms by (simp add: sortByStart_def)
  from mergeLoop_absorb[OF s this assms(2)] mergeLoop_hd[of gt c rest]
  show ?thesis by (simp add: mergeSortedRanges_def Cons)
qed

lemma processRanges_absorb:
  assumes "r \<in> set xs" "endDate r = None"
  shows "processRanges gt xs \<noteq> [] \<and> endDate (last (processRanges gt xs)) = None \<and>
         (\<forall>q \<in> set (processRanges gt xs). gt (start q) \<le> gt (start r))"
proof -
  have "xs \<noteq> []" using assms by auto
  then show ?thesis unfolding processRanges_def using sortMerge_absorb[OF assms] by simp
qed

lemma chain_open_last:
  "chain (map (rangeTimes gt) xs) \<Longrightarrow> r \<in> set xs \<Longrightarrow> endDate r = None \<Longrightarrow>
   xs \<noteq> [] \<and> endDate (last xs) = None \<and> (\<forall>q \<in> set xs. gt (start q) \<le> gt (start r))"
proof (induction xs)
  case Nil
  then show ?case by simp
next
  case (Cons a as)
  note c = chain_map_Cons[OF Cons.prems(1)]
  show ?case
  proof (cases "endDate a")
    case None
    with c have "as = []" by simp
    then show ?thesis using Cons.prems None by simp
  next
    case (Some e)
    then have "r \<in> set as" using Cons.prems by auto
    then have ne: "as \<noteq> []" by auto
    from Cons.IH[OF _ \<open>r \<in> set as\<close> Cons.prems(3)] c
    have ih: "endDate (last as) = None" "\<forall>q \<in> set as. gt (start q) \<le> gt (start r)" by simp_all
    have "gt (start a) < gt (start (hd as))" using c Some ne by auto
    moreover have "gt (start (hd as)) \<le> gt (start r)" using ih(2) hd_in_set[OF ne] by blast
    ultimately have "gt (start a) \<le> gt (start r)" by simp
    then show ?thesis using ih ne by simp
  qed
qed

lemma unionImpl_absorb:
  assumes "chain (map (rangeTimes gt) A)" "chain (map (rangeTimes gt) B)"
    and "r \<in> set A \<union> set B" "endDate r = None"
  shows "unionImpl gt A B \<noteq> [] \<and> endDate (last (unionImpl gt A B)) = None \<and>
         (\<forall>q \<in> set (unionImpl gt A B). gt (start q) \<le> gt (start r))"
proof (cases "A = [] \<or> B = []")
  case True
  then show ?thesis unfolding unionImpl_def
    using chain_open_last[OF assms(1) _ assms(4)] chain_open_last[OF assms(2) _ assms(4)] assms(3)
    by auto
next
  case False
  have "r \<in> set (A @ B)" using assms(3) by simp
  from sortMerge_absorb[OF this assms(4)] False show ?thesis unfolding unionImpl_def by simp
qed

lemma chain_covers_later:
  assumes "chain (map (rangeTimes gt) (a # as))" "covers gt as t"
  shows "\<exists>e. endDate a = Some e \<and> gt e < t"
proof -
  from assms(2) obtain x where x: "x \<in> set as" "gt (start x) \<le> t" by (auto simp: covers_set)
  then have "rangeTimes gt x \<in> set (map (rangeTimes gt) as)" by simp
  moreover have "chain (rangeTimes gt a # map (rangeTimes gt) as)" using assms(1) by simp
  ultimately obtain e where "endDate (rangeTimes gt a) = Some e" "e < start (rangeTimes gt x)"
    using chain_later by blast
  then show ?thesis using x by (auto simp: rangeTimes_def)
qed

lemma intersectionImpl_covers:
  "chain (map (rangeTimes gt) A) \<Longrightarrow> chain (map (rangeTimes gt) B) \<Longrightarrow>
   covers (\<lambda>x. x) (intersectionImpl gt A B) t = (covers gt A t \<and> covers gt B t)"
proof (induction gt A B rule: intersectionImpl.induct)
  case (1 gt rangesB)
  then show ?case by (simp add: covers_Nil)
next
  case (2 gt rangeA restA)
  then show ?case by (simp add: covers_Nil)
next
  case (3 gt rangeA restA rangeB restB)
  define startA where "startA = gt (start rangeA)"
  define startB where "startB = gt (start rangeB)"
  define endA where "endA = map_option gt (endDate rangeA)"
  define endB where "endB = map_option gt (endDate rangeB)"
  define iS where "iS = max startA startB"
  define ie where "ie = endMin endA endB"
  define pushed where "pushed = (if endLess (Some iS) ie then [\<lparr>start = iS, endDate = ie\<rparr>] else [])"
  define rec where "rec =
     (if endLess endA endB then intersectionImpl gt restA (rangeB # restB)
      else if endLess endB endA then intersectionImpl gt (rangeA # restA) restB
      else intersectionImpl gt restA restB)"
  have res: "intersectionImpl gt (rangeA # restA) (rangeB # restB) = pushed @ rec"
    by (simp add: Let_def pushed_def rec_def iS_def ie_def startA_def startB_def endA_def endB_def)
  define inA where "inA = (startA \<le> t \<and> (case endA of None \<Rightarrow> True | Some e \<Rightarrow> t < e))"
  define inB where "inB = (startB \<le> t \<and> (case endB of None \<Rightarrow> True | Some e \<Rightarrow> t < e))"
  have cA: "covers gt (rangeA # restA) t = (inA \<or> covers gt restA t)"
    by (cases "endDate rangeA") (simp_all add: covers_Cons inA_def startA_def endA_def)
  have cB: "covers gt (rangeB # restB) t = (inB \<or> covers gt restB t)"
    by (cases "endDate rangeB") (simp_all add: covers_Cons inB_def startB_def endB_def)
  have pc: "covers (\<lambda>x. x) pushed t = (inA \<and> inB)"
    by (cases endA; cases endB)
       (auto simp: pushed_def covers_Cons covers_Nil inA_def inB_def iS_def ie_def)
  have chA: "chain (map (rangeTimes gt) restA)" and chB: "chain (map (rangeTimes gt) restB)"
    using chain_map_Cons[OF "3.prems"(1)] chain_map_Cons[OF "3.prems"(2)] by simp_all
  have lA: "\<exists>e. endA = Some e \<and> e < t" if "covers gt restA t"
  proof -
    from chain_covers_later[OF "3.prems"(1) that] obtain e where "endDate rangeA = Some e" "gt e < t"
      by blast
    then show ?thesis by (simp add: endA_def)
  qed
  have lB: "\<exists>e. endB = Some e \<and> e < t" if "covers gt restB t"
  proof -
    from chain_covers_later[OF "3.prems"(2) that] obtain e where "endDate rangeB = Some e" "gt e < t"
      by blast
    then show ?thesis by (simp add: endB_def)
  qed
  have rc: "covers (\<lambda>x. x) rec t =
        ((inA \<or> covers gt restA t) \<and> (inB \<or> covers gt restB t) \<and> \<not> (inA \<and> inB))"
  proof (cases "endLess endA endB")
    case True
    have "covers (\<lambda>x. x) rec t = (covers gt restA t \<and> (inB \<or> covers gt restB t))"
      using "3.IH"(1)[OF startA_def startB_def endA_def endB_def iS_def ie_def pushed_def True chA "3.prems"(2)]
        True cB by (simp add: rec_def)
    moreover have "inA \<Longrightarrow> covers gt restB t \<Longrightarrow> False"
      using lB True by (cases endA) (auto simp: inA_def)
    moreover have "covers gt restA t \<Longrightarrow> inA \<Longrightarrow> False"
      using lA by (auto simp: inA_def)
    ultimately show ?thesis by blast
  next
    case nAB: False
    show ?thesis
    proof (cases "endLess endB endA")
      case True
      have "covers (\<lambda>x. x) rec t = ((inA \<or> covers gt restA t) \<and> covers gt restB t)"
        using "3.IH"(2)[OF startA_def startB_def endA_def endB_def iS_def ie_def pushed_def nAB True "3.prems"(1) chB]
          True nAB cA by (simp add: rec_def)
      moreover have "inB \<Longrightarrow> covers gt restA t \<Longrightarrow> False"
        using lA True by (cases endB) (auto simp: inB_def)
      moreover have "covers gt restB t \<Longrightarrow> inB \<Longrightarrow> False"
        using lB by (auto simp: inB_def)
      ultimately show ?thesis by blast
    next
      case nBA: False
      have eq: "endA = endB" using nAB nBA by (cases endA; cases endB) auto
      have "covers (\<lambda>x. x) rec t = (covers gt restA t \<and> covers gt restB t)"
        using "3.IH"(3)[OF startA_def startB_def endA_def endB_def iS_def ie_def pushed_def nAB nBA chA chB]
          nAB nBA by (simp add: rec_def)
      moreover have "inB \<Longrightarrow> covers gt restA t \<Longrightarrow> False"
        using lA eq by (auto simp: inB_def)
      moreover have "inA \<Longrightarrow> covers gt restB t \<Longrightarrow> False"
        using lB eq by (auto simp: inA_def)
      moreover have "covers gt restB t \<Longrightarrow> inB \<Longrightarrow> False"
        using lB by (auto simp: inB_def)
      moreover have "covers gt restA t \<Longrightarrow> inA \<Longrightarrow> False"
        using lA by (auto simp: inA_def)
      ultimately show ?thesis by blast
    qed
  qed
  show ?case unfolding res covers_append pc rc cA cB by blast
qed

section \<open>Verification: the calendar\<close>

lemma monthStart_alt:
  "monthStart m = yearStart ((m - 2) div 12) + (153 * ((m - 2) mod 12) + 2) div 5 - 719468"
  by (simp add: monthStart_def Let_def)

lemma yearStart_digits:
  assumes "0 \<le> n100" "n100 \<le> 3" "0 \<le> n4" "n4 \<le> 24" "0 \<le> n1" "n1 \<le> 3"
  shows "yearStart (era * 400 + n100 * 100 + n4 * 4 + n1) =
           146097 * era + 36524 * n100 + 1461 * n4 + 365 * n1"
proof -
  let ?Y = "era * 400 + n100 * 100 + n4 * 4 + n1"
  have d4: "?Y div 4 = era * 100 + n100 * 25 + n4"
    by (rule int_div_pos_eq[where r = n1]) (use assms in auto)
  have d100: "?Y div 100 = era * 4 + n100"
    by (rule int_div_pos_eq[where r = "n4 * 4 + n1"]) (use assms in auto)
  have d400: "?Y div 400 = era"
    by (rule int_div_pos_eq[where r = "n100 * 100 + n4 * 4 + n1"]) (use assms in auto)
  show ?thesis unfolding yearStart_def d4 d100 d400 by simp
qed

lemma yearStart_step: "yearStart Y + 365 \<le> yearStart (Y + 1)"
proof -
  define a where "a = Y div 4"
  define a' where "a' = (Y + 1) div 4"
  have a: "a' = a \<or> a' = a + 1" unfolding a_def a'_def by presburger
  have h: "Y div 100 = a div 25" "(Y + 1) div 100 = a' div 25"
    unfolding a_def a'_def by (simp_all add: zdiv_zmult2_eq[symmetric])
  have s25: "(a + 1) div 25 \<le> a div 25 + 1" by presburger
  define b where "b = Y div 100"
  define b' where "b' = (Y + 1) div 100"
  define c where "c = Y div 400"
  define c' where "c' = (Y + 1) div 400"
  have "c \<le> c'" unfolding c_def c'_def by (rule zdiv_mono1) simp_all
  moreover have "b' - b \<le> a' - a"
    using a s25 unfolding b_def b'_def h by auto
  ultimately have "365 * Y + a - b + c + 365 \<le> 365 * (Y + 1) + a' - b' + c'"
    by simp
  then show ?thesis unfolding yearStart_def a_def a'_def b_def b'_def c_def c'_def .
qed


lemma divmod_bounds:
  fixes a c :: int
  assumes "0 < c"
  obtains q r where "a = c * q + r" "0 \<le> r" "r < c" "a div c = q" "a mod c = r"
  using assms by (metis mult_div_mod_eq pos_mod_sign pos_mod_bound)

text \<open>The year (counted from March) and the day of that year of a day number.\<close>

lemma civil_year:
  obtains Y doy where
    "z + 719468 = yearStart Y + doy" "0 \<le> doy" "yearStart Y + doy < yearStart (Y + 1)"
    "civilFromDays z =
       (let mp = (5 * doy + 2) div 153; d = doy - (153 * mp + 2) div 5 + 1; m = (mp + 2) mod 12
        in (if m \<le> 1 then Y + 1 else Y, m, d))"
    "doy \<le> 365"
proof -
  define z' where "z' = z + 719468"
  define era where "era = z' div 146097"
  define doe where "doe = z' mod 146097"
  define q1 where "q1 = doe div 36524"
  define n100 where "n100 = min q1 3"
  define r2 where "r2 = doe - n100 * 36524"
  define n4 where "n4 = r2 div 1461"
  define r3 where "r3 = r2 mod 1461"
  define q3 where "q3 = r3 div 365"
  define n1 where "n1 = min q3 3"
  define doy where "doy = r3 - n1 * 365"
  define Y where "Y = era * 400 + n100 * 100 + n4 * 4 + n1"
  have e: "z' = 146097 * era + doe" "0 \<le> doe" "doe < 146097"
    unfolding era_def doe_def by simp_all
  define t1 where "t1 = doe mod 36524"
  have q1: "doe = 36524 * q1 + t1" "0 \<le> t1" "t1 < 36524"
    unfolding q1_def t1_def by simp_all
  have q1b: "0 \<le> q1" "q1 \<le> 4" using q1(1-3) e(2,3) by auto
  have n100b: "0 \<le> n100" "n100 \<le> 3" using q1b by (auto simp: n100_def)
  have r2b: "0 \<le> r2" "r2 \<le> 36524" "n100 < 3 \<Longrightarrow> r2 \<le> 36523"
    using q1 q1b e(2,3) by (auto simp: n100_def r2_def min_def split: if_splits)
  have n4: "r2 = 1461 * n4 + r3" "0 \<le> r3" "r3 < 1461"
    unfolding n4_def r3_def by simp_all
  have n4b: "0 \<le> n4" "n4 \<le> 24" using n4(1-3) r2b by auto
  have r3b: "n100 < 3 \<Longrightarrow> n4 = 24 \<Longrightarrow> r3 \<le> 1459" using n4(1) r2b(3) by auto
  define t3 where "t3 = r3 mod 365"
  have q3: "r3 = 365 * q3 + t3" "0 \<le> t3" "t3 < 365"
    unfolding q3_def t3_def by simp_all
  have q3b: "0 \<le> q3" "q3 \<le> 4" using q3(1-3) n4(2,3) by auto
  have n1b: "0 \<le> n1" "n1 \<le> 3" using q3b by (auto simp: n1_def)
  have doyb: "0 \<le> doy" "doy \<le> 365" "doy = 365 \<Longrightarrow> r3 = 1460 \<and> n1 = 3" "n1 < 3 \<Longrightarrow> doy \<le> 364"
    using q3 q3b n4(2,3) by (auto simp: n1_def doy_def min_def split: if_splits)
  have yS: "yearStart Y = 146097 * era + 36524 * n100 + 1461 * n4 + 365 * n1"
    unfolding Y_def using n100b n4b n1b by (intro yearStart_digits) auto
  have sum: "z' = yearStart Y + doy"
    using e(1) n4(1) by (simp add: yS r2_def doy_def)
  have bound: "yearStart Y + doy < yearStart (Y + 1)"
  proof (cases "doy = 365")
    case False
    with doyb have "doy \<le> 364" by simp
    with yearStart_step[of Y] show ?thesis by simp
  next
    case True
    with doyb have r3: "r3 = 1460" and n1: "n1 = 3" by simp_all
    show ?thesis
    proof (cases "n4 = 24")
      case False
      have "Y + 1 = era * 400 + n100 * 100 + (n4 + 1) * 4 + 0" by (simp add: Y_def n1)
      then have "yearStart (Y + 1) = 146097 * era + 36524 * n100 + 1461 * (n4 + 1) + 365 * 0"
        using n100b n4b False by (simp only:) (intro yearStart_digits; simp)
      then show ?thesis using yS True n1 by simp
    next
      case n24: True
      with r3 r3b have n100: "n100 = 3" using n100b by force
      have "Y + 1 = (era + 1) * 400 + 0 * 100 + 0 * 4 + 0" by (simp add: Y_def n1 n24 n100)
      then have "yearStart (Y + 1) = 146097 * (era + 1) + 36524 * 0 + 1461 * 0 + 365 * 0"
        by (simp only:) (intro yearStart_digits; simp)
      then show ?thesis using yS True n1 n24 n100 by simp
    qed
  qed
  have civ: "civilFromDays z =
       (let mp = (5 * doy + 2) div 153; d = doy - (153 * mp + 2) div 5 + 1; m = (mp + 2) mod 12
        in (if m \<le> 1 then Y + 1 else Y, m, d))"
    unfolding civilFromDays_def Let_def Y_def doy_def n1_def q3_def r3_def n4_def r2_def n100_def
      q1_def doe_def era_def z'_def by (rule refl)
  show thesis
    by (rule that[of Y doy]) (use sum bound civ doyb in \<open>simp_all add: z'_def\<close>)
qed

lemma month_of_doy:
  fixes doy :: int
  assumes "0 \<le> doy" "doy \<le> 365" "mp = (5 * doy + 2) div 153"
  shows "0 \<le> mp" "mp \<le> 11" "(153 * mp + 2) div 5 \<le> doy" "doy < (153 * (mp + 1) + 2) div 5"
proof -
  define r where "r = (5 * doy + 2) mod 153"
  have r: "5 * doy + 2 = 153 * mp + r" "0 \<le> r" "r < 153"
    unfolding r_def assms(3) by simp_all
  show "0 \<le> mp" "mp \<le> 11" using r assms(1,2) by auto
  have "(153 * mp + 2) div 5 \<le> (5 * doy + 4) div 5"
    by (rule zdiv_mono1) (use r in auto)
  then show "(153 * mp + 2) div 5 \<le> doy" by simp
  have "(5 * doy + 5) div 5 \<le> (153 * (mp + 1) + 2) div 5"
    by (rule zdiv_mono1) (use r in auto)
  then show "doy < (153 * (mp + 1) + 2) div 5" by simp
qed
lemma month_number: fixes mp :: int assumes "0 \<le> mp" "mp \<le> 11" shows "(mp + 2) mod 12 = (if mp \<le> 9 then mp + 2 else mp - 10)"
proof (cases "mp \<le> 9")
  case True
  then show ?thesis using assms by simp
next
  case False
  have "(mp + 2) mod 12 = mp - 10" by (rule int_mod_pos_eq[where q = 1]) (use assms False in auto)
  with False show ?thesis by simp
qed
lemma monthOffset_strict: fixes mp :: int assumes "0 \<le> mp" "mp \<le> 10" shows "(153 * mp + 2) div 5 < (153 * (mp + 1) + 2) div 5"
proof -
  have "(153 * mp + 2) div 5 + 30 = (153 * mp + 2 + 150) div 5" by simp
  also have "\<dots> \<le> (153 * (mp + 1) + 2) div 5" by (rule zdiv_mono1) simp_all
  finally show ?thesis by simp
qed

lemma monthStart_digits:
  assumes "0 \<le> mp" "mp \<le> 11"
  shows "monthStart (12 * Y + mp + 2) = yearStart Y + (153 * mp + 2) div 5 - 719468"
proof -
  have "(12 * Y + mp) div 12 = Y" by (rule int_div_pos_eq[where r = mp]) (use assms in auto)
  moreover have "(12 * Y + mp) mod 12 = mp" by (rule int_mod_pos_eq[where q = Y]) (use assms in auto)
  ultimately show ?thesis by (simp add: monthStart_alt)
qed

lemma civil_props:
  assumes "civilFromDays z = (y, m, d)"
  shows "MakeDay y m d = z" "0 \<le> m" "m \<le> 11" "1 \<le> d" "z < monthStart (12 * y + m + 1)"
proof -
  obtain Y doy where yd: "z + 719468 = yearStart Y + doy" "0 \<le> doy"
    "yearStart Y + doy < yearStart (Y + 1)"
    "civilFromDays z =
       (let mp = (5 * doy + 2) div 153; d = doy - (153 * mp + 2) div 5 + 1; m = (mp + 2) mod 12
        in (if m \<le> 1 then Y + 1 else Y, m, d))"
    "doy \<le> 365"
    by (rule civil_year)
  define mp where "mp = (5 * doy + 2) div 153"
  note mpb = month_of_doy[OF yd(2) yd(5) mp_def]
  have m: "m = (mp + 2) mod 12" and d: "d = doy - (153 * mp + 2) div 5 + 1"
    and y: "y = (if m \<le> 1 then Y + 1 else Y)"
    using assms yd(4) by (auto simp: Let_def mp_def)
  have mm: "m = (if mp \<le> 9 then mp + 2 else mp - 10)"
    unfolding m using mpb(1,2) by (rule month_number)
  have M: "12 * y + m = 12 * Y + mp + 2"
    using mm y mpb by (auto split: if_splits)
  have ms: "monthStart (12 * y + m) = yearStart Y + (153 * mp + 2) div 5 - 719468"
    unfolding M using mpb(1,2) by (rule monthStart_digits)
  show "MakeDay y m d = z" unfolding MakeDay_def ms d using yd(1) by simp
  show "0 \<le> m" "m \<le> 11" using mm mpb by (auto split: if_splits)
  show "1 \<le> d" unfolding d using mpb(3) by simp
  show "z < monthStart (12 * y + m + 1)"
  proof (cases "mp = 11")
    case True
    have "12 * y + m + 1 = 12 * (Y + 1) + 0 + 2" using M True by simp
    then have "monthStart (12 * y + m + 1) = yearStart (Y + 1) + (153 * 0 + 2) div 5 - 719468"
      by (simp only:) (rule monthStart_digits; simp)
    then show ?thesis using yd(1,3) by simp
  next
    case False
    then have "mp + 1 \<le> 11" "0 \<le> mp + 1" using mpb by simp_all
    moreover have "12 * y + m + 1 = 12 * Y + (mp + 1) + 2" using M by simp
    ultimately have "monthStart (12 * y + m + 1) = yearStart Y + (153 * (mp + 1) + 2) div 5 - 719468"
      by (simp only:) (rule monthStart_digits; simp)
    then show ?thesis using yd(1) mpb(4) by simp
  qed
qed

lemma monthStart_less_Suc: "monthStart M < monthStart (M + 1)"
proof -
  define Y where "Y = (M - 2) div 12"
  define mp where "mp = (M - 2) mod 12"
  have mpb: "0 \<le> mp" "mp \<le> 11" unfolding mp_def by simp_all
  have M: "M = 12 * Y + mp + 2" unfolding Y_def mp_def by simp
  have a: "monthStart M = yearStart Y + (153 * mp + 2) div 5 - 719468"
    unfolding M using mpb by (rule monthStart_digits)
  show ?thesis
  proof (cases "mp = 11")
    case True
    have "M + 1 = 12 * (Y + 1) + 0 + 2" using M True by simp
    then have "monthStart (M + 1) = yearStart (Y + 1) + (153 * 0 + 2) div 5 - 719468"
      by (simp only:) (rule monthStart_digits; simp)
    then show ?thesis using a True yearStart_step[of Y] by simp
  next
    case False
    then have b: "mp + 1 \<le> 11" "0 \<le> mp + 1" using mpb by simp_all
    moreover have "M + 1 = 12 * Y + (mp + 1) + 2" using M by simp
    ultimately have "monthStart (M + 1) = yearStart Y + (153 * (mp + 1) + 2) div 5 - 719468"
      by (simp only:) (rule monthStart_digits; simp)
    moreover have "(153 * mp + 2) div 5 < (153 * (mp + 1) + 2) div 5"
      using mpb False by (intro monthOffset_strict) auto
    ultimately show ?thesis using a by simp
  qed
qed

lemma monthStart_mono_nat: "monthStart M \<le> monthStart (M + int k)"
proof (induction k)
  case 0
  then show ?case by simp
next
  case (Suc k)
  have "monthStart (M + int k) < monthStart (M + int k + 1)" by (rule monthStart_less_Suc)
  with Suc show ?case by (simp add: algebra_simps)
qed

lemma monthStart_mono: "M \<le> N \<Longrightarrow> monthStart M \<le> monthStart N"
  using monthStart_mono_nat[of M "nat (N - M)"] by simp

lemma monthStart_strict: "M < N \<Longrightarrow> monthStart M < monthStart N"
  using monthStart_mono[of "M + 1" N] monthStart_less_Suc[of M] by simp

lemma time_decomp:
  "MakeDate (Day t) (MakeTime (HourFromTime t) (MinFromTime t) (SecFromTime t) (msFromTime t)) = t"
proof -
  define a1 where "a1 = t div 1000"
  define a2 where "a2 = a1 div 60"
  define a3 where "a3 = a2 div 60"
  define a4 where "a4 = a3 div 24"
  have h2: "t div 60000 = a2" unfolding a2_def a1_def by (simp add: zdiv_zmult2_eq[symmetric])
  have h3: "t div 3600000 = a3" unfolding a3_def h2[symmetric] by (simp add: zdiv_zmult2_eq[symmetric])
  have h4: "t div 86400000 = a4" unfolding a4_def h3[symmetric] by (simp add: zdiv_zmult2_eq[symmetric])
  have e1: "t = 1000 * a1 + t mod 1000" unfolding a1_def by simp
  have e2: "a1 = 60 * a2 + a1 mod 60" unfolding a2_def by simp
  have e3: "a2 = 60 * a3 + a2 mod 60" unfolding a3_def by simp
  have e4: "a3 = 24 * a4 + a3 mod 24" unfolding a4_def by simp
  have "a4 * 86400000 + ((a3 mod 24) * 3600000 + (a2 mod 60) * 60000 + (a1 mod 60) * 1000 + t mod 1000) = t"
    using e1 e2 e3 e4 by linarith
  then show ?thesis
    unfolding MakeDate_def MakeTime_def Day_def HourFromTime_def MinFromTime_def SecFromTime_def
      msFromTime_def msPerDay_def msPerHour_def msPerMinute_def msPerSecond_def h2 h3 h4
    by (simp add: a1_def[symmetric])
qed

lemma setMilliseconds_eq: "setMilliseconds t x = t + (x - msFromTime t)"
  using time_decomp[of t] unfolding setMilliseconds_def MakeDate_def MakeTime_def by simp




lemma setHours4_zero: "setHours4 t 0 0 0 0 = Day t * msPerDay"
  unfolding setHours4_def MakeDate_def MakeTime_def by simp

lemma day_decomp: "Day t * msPerDay + TimeWithinDay t = t"
  unfolding Day_def TimeWithinDay_def by simp

lemma civil_of_time:
  "MakeDay (YearFromTime t) (MonthFromTime t) (DateFromTime t) = Day t"
  "0 \<le> MonthFromTime t" "MonthFromTime t \<le> 11" "1 \<le> DateFromTime t"
  "Day t < monthStart (12 * YearFromTime t + MonthFromTime t + 1)"
  using civil_props[of "Day t" "YearFromTime t" "MonthFromTime t" "DateFromTime t"]
  unfolding YearFromTime_def MonthFromTime_def DateFromTime_def by simp_all

lemma setDate_eq: "setDate t x = t + (x - DateFromTime t) * msPerDay"
proof -
  have "MakeDay (YearFromTime t) (MonthFromTime t) x = Day t + (x - DateFromTime t)"
    using civil_of_time(1)[of t] unfolding MakeDay_def by simp
  then have "setDate t x = (Day t + (x - DateFromTime t)) * msPerDay + TimeWithinDay t"
    unfolding setDate_def MakeDate_def by simp
  also have "\<dots> = (Day t * msPerDay + TimeWithinDay t) + (x - DateFromTime t) * msPerDay"
    by (simp add: algebra_simps)
  finally show ?thesis by (simp only: day_decomp)
qed

lemma Day_addDays: "Day (t + k * msPerDay) = Day t + k"
  unfolding Day_def msPerDay_def by simp

lemma startOfDay_Day: "startOfDay t = Day t * msPerDay"
  unfolding startOfDay_def Day_def by (simp add: minus_mod_eq_div_mult)

lemma jsRem_nonneg: "0 \<le> a \<Longrightarrow> jsRem a 7 = a mod 7"
  unfolding jsRem_def by (cases "a = 0") simp_all

lemma getDay_range: "0 \<le> getDay t" "getDay t \<le> 6"
  unfolding getDay_def WeekDayFromTime_def by simp_all

lemma startDay_setDate: "setHours4 (setDate t (getDate t + k)) 0 0 0 0 = startOfDay (addDays t k)"
  unfolding setHours4_zero setDate_eq getDate_def startOfDay_Day addDays_def by simp

lemma nextDay_setDate: "setDate t (getDate t + 1) = addDays t 1"
  unfolding setDate_eq getDate_def addDays_def by simp



lemma WeekDay_ranges:
  assumes "0 \<le> n" "n \<le> 6"
  shows "WeekDay_lastActiveRange n t =
           (let d = (getDay t - n + 7) mod 7; s = startOfDay (addDays t (- d))
            in \<lparr>start = s, endDate = Some (addDays s 1)\<rparr>)"
    and "WeekDay_nextRanges n t =
           (let d0 = n - getDay t; d = (if d0 \<le> 0 then d0 + 7 else d0);
                s = startOfDay (addDays t d)
            in \<lparr>start = s, endDate = Some (addDays s 1)\<rparr>)"
proof -
  have "0 \<le> getDay t - n + 7" using assms getDay_range[of t] by simp
  then have r: "jsRem (getDay t - n + 7) 7 = (getDay t - n + 7) mod 7" by (rule jsRem_nonneg)
  have m: "\<And>k. getDate t - k = getDate t + (- k)" by simp
  show "WeekDay_lastActiveRange n t =
           (let d = (getDay t - n + 7) mod 7; s = startOfDay (addDays t (- d))
            in \<lparr>start = s, endDate = Some (addDays s 1)\<rparr>)"
    unfolding WeekDay_lastActiveRange_def Let_def r m startDay_setDate nextDay_setDate by (rule refl)
  show "WeekDay_nextRanges n t =
           (let d0 = n - getDay t; d = (if d0 \<le> 0 then d0 + 7 else d0);
                s = startOfDay (addDays t d)
            in \<lparr>start = s, endDate = Some (addDays s 1)\<rparr>)"
    unfolding WeekDay_nextRanges_def Let_def startDay_setDate nextDay_setDate by (rule refl)
qed

subsection \<open>Claim C1\<close>

text \<open>
  Claim C1.  The ranges are compared by their time values \<open>gt\<close>.  Canonical means:
  strictly sorted by start, pairwise disjoint, non-touching, and an open-ended range
  only in the last place (so at most one).

  (1) For every list of well-formed DateRanges (an end, if present, is after the start),
  the result of range-set construction \<open>processRanges\<close> (sort, then merge) is canonical.
  (2) For every pair of canonical range sets, \<open>unionImpl\<close> and \<open>intersectionImpl\<close> give
  canonical results.
  (3) An open-ended input range absorbs all later ranges: if an input range \<open>r\<close> of
  \<open>processRanges\<close> has no end, then the result is not empty, its last range has no end,
  and no range of the result starts after \<open>r\<close>; (4) the same for \<open>unionImpl\<close> on
  canonical range sets, for an open-ended range of either argument.
  (5, 6, 7) Nothing is lost and nothing is added: an instant is in a range of
  \<open>processRanges gt ranges\<close> exactly when it is in a range of \<open>ranges\<close>; in a range of
  \<open>unionImpl gt A B\<close> exactly when it is in a range of \<open>A\<close> or of \<open>B\<close>; and, for canonical
  \<open>A\<close> and \<open>B\<close>, in a range of \<open>intersectionImpl gt A B\<close> exactly when it is in a range
  of \<open>A\<close> and in a range of \<open>B\<close>.
\<close>

theorem C1_rangeSet_invariants:
  "(list_all (\<lambda>r. wfRange (rangeTimes gt r)) ranges \<longrightarrow>
      canonical (map (rangeTimes gt) (processRanges gt ranges))) \<and>
   (canonical (map (rangeTimes gt) A) \<and> canonical (map (rangeTimes gt) B) \<longrightarrow>
      canonical (map (rangeTimes gt) (unionImpl gt A B)) \<and>
      canonical (intersectionImpl gt A B)) \<and>
   (\<forall>r \<in> set ranges. endDate r = None \<longrightarrow>
      processRanges gt ranges \<noteq> [] \<and>
      endDate (last (processRanges gt ranges)) = None \<and>
      (\<forall>q \<in> set (processRanges gt ranges). gt (start q) \<le> gt (start r))) \<and>
   (canonical (map (rangeTimes gt) A) \<and> canonical (map (rangeTimes gt) B) \<longrightarrow>
      (\<forall>r \<in> set A \<union> set B. endDate r = None \<longrightarrow>
         unionImpl gt A B \<noteq> [] \<and>
         endDate (last (unionImpl gt A B)) = None \<and>
         (\<forall>q \<in> set (unionImpl gt A B). gt (start q) \<le> gt (start r)))) \<and>
   (\<forall>t. covers gt (processRanges gt ranges) t = covers gt ranges t) \<and>
   (\<forall>t. covers gt (unionImpl gt A B) t = (covers gt A t \<or> covers gt B t)) \<and>
   (canonical (map (rangeTimes gt) A) \<and> canonical (map (rangeTimes gt) B) \<longrightarrow>
      (\<forall>t. covers (\<lambda>x. x) (intersectionImpl gt A B) t = (covers gt A t \<and> covers gt B t)))"
proof (intro conjI)
  show "list_all (\<lambda>r. wfRange (rangeTimes gt r)) ranges \<longrightarrow>
      canonical (map (rangeTimes gt) (processRanges gt ranges))"
    by (blast intro: chain_canonical processRanges_chain)
  show "canonical (map (rangeTimes gt) A) \<and> canonical (map (rangeTimes gt) B) \<longrightarrow>
      canonical (map (rangeTimes gt) (unionImpl gt A B)) \<and>
      canonical (intersectionImpl gt A B)"
    by (blast intro: chain_canonical unionImpl_chain intersectionImpl_chain dest: canonical_chain)
  show "\<forall>r \<in> set ranges. endDate r = None \<longrightarrow>
      processRanges gt ranges \<noteq> [] \<and>
      endDate (last (processRanges gt ranges)) = None \<and>
      (\<forall>q \<in> set (processRanges gt ranges). gt (start q) \<le> gt (start r))"
    using processRanges_absorb[of _ ranges gt] by blast
  show "canonical (map (rangeTimes gt) A) \<and> canonical (map (rangeTimes gt) B) \<longrightarrow>
      (\<forall>r \<in> set A \<union> set B. endDate r = None \<longrightarrow>
         unionImpl gt A B \<noteq> [] \<and>
         endDate (last (unionImpl gt A B)) = None \<and>
         (\<forall>q \<in> set (unionImpl gt A B). gt (start q) \<le> gt (start r)))"
    using unionImpl_absorb[of gt A B] canonical_chain by blast
  show "\<forall>t. covers gt (processRanges gt ranges) t = covers gt ranges t"
    by (simp add: processRanges_covers)
  show "\<forall>t. covers gt (unionImpl gt A B) t = (covers gt A t \<or> covers gt B t)"
    by (simp add: unionImpl_covers)
  show "canonical (map (rangeTimes gt) A) \<and> canonical (map (rangeTimes gt) B) \<longrightarrow>
      (\<forall>t. covers (\<lambda>x. x) (intersectionImpl gt A B) t = (covers gt A t \<and> covers gt B t))"
    using intersectionImpl_covers[of gt A B] canonical_chain by blast
qed

text \<open>
  The theorem at concrete inputs.  In the first list the touching ranges [1,5) and
  [5,10) are merged and the open-ended range from 20 absorbs [30,40).  In the second
  list the open-ended range from 5 overlaps [1,10): the result is the single range
  from 1 with no end, which also absorbs [20,30); the instant 25 is in it.  The union
  and the intersection of two canonical range sets follow.
\<close>

theorem C1_witness:
  "list_all wfRange
     [\<lparr>start = 5, endDate = Some 10\<rparr>, \<lparr>start = 1, endDate = Some 5\<rparr>,
      \<lparr>start = 20, endDate = None\<rparr>, \<lparr>start = 30, endDate = Some 40\<rparr>] \<and>
   processRanges (\<lambda>x. x)
     [\<lparr>start = 5, endDate = Some 10\<rparr>, \<lparr>start = 1, endDate = Some 5\<rparr>,
      \<lparr>start = 20, endDate = None\<rparr>, \<lparr>start = 30, endDate = Some 40\<rparr>]
     = [\<lparr>start = 1, endDate = Some 10\<rparr>, \<lparr>start = 20, endDate = None\<rparr>] \<and>
   canonical [\<lparr>start = 1, endDate = Some 10\<rparr>, \<lparr>start = 20, endDate = None\<rparr>] \<and>
   list_all wfRange
     [\<lparr>start = 1, endDate = Some 10\<rparr>, \<lparr>start = 5, endDate = None\<rparr>,
      \<lparr>start = 20, endDate = Some 30\<rparr>] \<and>
   processRanges (\<lambda>x. x)
     [\<lparr>start = 1, endDate = Some 10\<rparr>, \<lparr>start = 5, endDate = None\<rparr>,
      \<lparr>start = 20, endDate = Some 30\<rparr>]
     = [\<lparr>start = 1, endDate = None\<rparr>] \<and>
   canonical [\<lparr>start = 1, endDate = None :: int option\<rparr>] \<and>
   endDate (last [\<lparr>start = 1 :: int, endDate = None :: int option\<rparr>]) = None \<and>
   list_all (\<lambda>q. start q \<le> 5) [\<lparr>start = 1 :: int, endDate = None :: int option\<rparr>] \<and>
   covers (\<lambda>x. x) [\<lparr>start = 1, endDate = None\<rparr>] 25 \<and>
   canonical [\<lparr>start = 1, endDate = Some 3\<rparr>, \<lparr>start = 5, endDate = None\<rparr>] \<and>
   canonical [\<lparr>start = 2, endDate = Some 4\<rparr>, \<lparr>start = 8, endDate = Some 9\<rparr>] \<and>
   unionImpl (\<lambda>x. x) [\<lparr>start = 1, endDate = Some 3\<rparr>, \<lparr>start = 5, endDate = None\<rparr>]
     [\<lparr>start = 2, endDate = Some 4\<rparr>, \<lparr>start = 8, endDate = Some 9\<rparr>]
     = [\<lparr>start = 1, endDate = Some 4\<rparr>, \<lparr>start = 5, endDate = None\<rparr>] \<and>
   canonical [\<lparr>start = 1, endDate = Some 4\<rparr>, \<lparr>start = 5, endDate = None\<rparr>] \<and>
   endDate (last [\<lparr>start = 1, endDate = Some 4\<rparr>, \<lparr>start = 5 :: int, endDate = None\<rparr>]) = None \<and>
   covers (\<lambda>x. x) [\<lparr>start = 1, endDate = Some 4\<rparr>, \<lparr>start = 5, endDate = None\<rparr>] 8 \<and>
   intersectionImpl (\<lambda>x. x) [\<lparr>start = 1, endDate = Some 3\<rparr>, \<lparr>start = 5, endDate = None\<rparr>]
     [\<lparr>start = 2, endDate = Some 4\<rparr>, \<lparr>start = 8, endDate = Some 9\<rparr>]
     = [\<lparr>start = 2, endDate = Some 3\<rparr>, \<lparr>start = 8, endDate = Some 9\<rparr>] \<and>
   canonical [\<lparr>start = 2, endDate = Some 3\<rparr>, \<lparr>start = 8, endDate = Some 9\<rparr>] \<and>
   covers (\<lambda>x. x) [\<lparr>start = 2, endDate = Some 3\<rparr>, \<lparr>start = 8, endDate = Some 9\<rparr>] 8"
proof -
  let ?rs = "[\<lparr>start = 5, endDate = Some 10\<rparr>, \<lparr>start = 1, endDate = Some 5\<rparr>,
      \<lparr>start = 20, endDate = None\<rparr>, \<lparr>start = 30, endDate = Some (40::int)\<rparr>]"
  let ?rs2 = "[\<lparr>start = 1, endDate = Some 10\<rparr>, \<lparr>start = 5, endDate = None\<rparr>,
      \<lparr>start = 20, endDate = Some (30::int)\<rparr>]"
  let ?A = "[\<lparr>start = 1, endDate = Some 3\<rparr>, \<lparr>start = 5::int, endDate = None\<rparr>]"
  let ?B = "[\<lparr>start = 2, endDate = Some 4\<rparr>, \<lparr>start = 8::int, endDate = Some 9\<rparr>]"
  have id: "\<And>xs. map (rangeTimes (\<lambda>x. x)) xs = xs"
    by (induct_tac xs) (simp_all add: rangeTimes_def option.map_ident)
  have h1: "list_all (\<lambda>r. wfRange (rangeTimes (\<lambda>x. x) r)) ?rs"
    by (simp add: wfRange_def rangeTimes_def)
  have h1': "list_all (\<lambda>r. wfRange (rangeTimes (\<lambda>x. x) r)) ?rs2"
    by (simp add: wfRange_def rangeTimes_def)
  have w1: "list_all wfRange ?rs" "list_all wfRange ?rs2"
    by (simp_all add: wfRange_def)
  have h2: "canonical (map (rangeTimes (\<lambda>x. x)) ?A)" "canonical (map (rangeTimes (\<lambda>x. x)) ?B)"
    unfolding id by code_simp+
  have h3: "\<lparr>start = 5::int, endDate = None\<rparr> \<in> set ?rs2" "\<lparr>start = 5::int, endDate = None\<rparr> \<in> set ?A \<union> set ?B"
    by simp_all
  have c1: "covers (\<lambda>x. x) ?rs2 25" "covers (\<lambda>x. x) ?B 8" "covers (\<lambda>x. x) ?A 8"
    by (simp_all add: covers_Cons)
  have e1: "processRanges (\<lambda>x. x) ?rs = [\<lparr>start = 1, endDate = Some 10\<rparr>, \<lparr>start = 20, endDate = None\<rparr>]"
    by code_simp
  have e1': "processRanges (\<lambda>x. x) ?rs2 = [\<lparr>start = 1, endDate = None\<rparr>]"
    by code_simp
  have e2: "unionImpl (\<lambda>x. x) ?A ?B = [\<lparr>start = 1, endDate = Some 4\<rparr>, \<lparr>start = 5, endDate = None\<rparr>]"
    by code_simp
  have e3: "intersectionImpl (\<lambda>x. x) ?A ?B = [\<lparr>start = 2, endDate = Some 3\<rparr>, \<lparr>start = 8, endDate = Some 9\<rparr>]"
    by code_simp
  note t1 = C1_rangeSet_invariants[of "\<lambda>x. x" ?rs ?A ?B, unfolded id e1 e2 e3]
  note t2 = C1_rangeSet_invariants[of "\<lambda>x. x" ?rs2 ?A ?B, unfolded id e1' e2 e3]
  have a1: "canonical [\<lparr>start = 1, endDate = Some 10\<rparr>, \<lparr>start = 20::int, endDate = None\<rparr>]"
    using t1 h1 by blast
  have a2: "canonical [\<lparr>start = 1::int, endDate = None :: int option\<rparr>]"
    using t2 h1' by blast
  have a3: "endDate (last [\<lparr>start = 1 :: int, endDate = None :: int option\<rparr>]) = None"
       "list_all (\<lambda>q. start q \<le> 5) [\<lparr>start = 1 :: int, endDate = None :: int option\<rparr>]"
    by simp_all
  have a4: "covers (\<lambda>x. x) [\<lparr>start = 1, endDate = None\<rparr>] 25"
    using t2 c1 by blast
  have a5: "canonical [\<lparr>start = 1, endDate = Some 4\<rparr>, \<lparr>start = 5::int, endDate = None\<rparr>]"
       "canonical [\<lparr>start = 2, endDate = Some 3\<rparr>, \<lparr>start = 8::int, endDate = Some 9\<rparr>]"
    using t1 h2[unfolded id] by blast+
  have a6: "endDate (last [\<lparr>start = 1, endDate = Some 4\<rparr>, \<lparr>start = 5 :: int, endDate = None\<rparr>]) = None"
    by simp
  have a7: "covers (\<lambda>x. x) [\<lparr>start = 1, endDate = Some 4\<rparr>, \<lparr>start = 5, endDate = None\<rparr>] 8"
    using t1 c1 by blast
  have a8: "covers (\<lambda>x. x) [\<lparr>start = 2, endDate = Some 3\<rparr>, \<lparr>start = 8, endDate = Some 9\<rparr>] 8"
    using t1 h2[unfolded id] c1 by blast
  show ?thesis
    using w1 e1 a1 e1' a2 a3 a4 h2[unfolded id] e2 a5 a6 a7 e3 a8 by (intro conjI)
qed

lemma raises_if: "raises (if c then Inl e else Inr v) = c"
  by (simp add: raises_def)

subsection \<open>Claim C9\<close>

text \<open>
  Claim C9.  Construction raises an error exactly for the invalid arguments:
  MonthBetweenCond iff a month is outside 0-11; DateBetweenCond iff a month is outside
  0-11 or a day outside 1-31; DayBetweenCond iff a day is outside 1-31; WeekDay iff
  the index is outside 0-6; TimeSpanCond iff a component is negative or all components
  are zero (an absent component counts as zero); OrCond and AndCond iff the list of
  children is empty.
\<close>

theorem C9_constructor_errors:
  "raises (newMonthBetweenCond s e) = (s < 0 \<or> 11 < s \<or> e < 0 \<or> 11 < e) \<and>
   raises (newDateBetweenCond sd ed) =
     (month sd < 0 \<or> 11 < month sd \<or> month ed < 0 \<or> 11 < month ed \<or>
      day sd < 1 \<or> 31 < day sd \<or> day ed < 1 \<or> 31 < day ed) \<and>
   raises (newDayBetweenCond ds de) = (ds < 1 \<or> 31 < ds \<or> de < 1 \<or> 31 < de) \<and>
   raises (newWeekDay n) = (n < 0 \<or> 6 < n) \<and>
   raises (newTimeSpanCond dur) =
     ((orZero (months dur) < 0 \<or> orZero (days dur) < 0 \<or> orZero (hours dur) < 0 \<or>
       orZero (minutes dur) < 0 \<or> orZero (seconds dur) < 0) \<or>
      (orZero (months dur) = 0 \<and> orZero (days dur) = 0 \<and> orZero (hours dur) = 0 \<and>
       orZero (minutes dur) = 0 \<and> orZero (seconds dur) = 0)) \<and>
   raises (newOrCond cs) = (cs = []) \<and>
   raises (newAndCond cs) = (cs = [])"
proof (intro conjI)
  show "raises (newMonthBetweenCond s e) = (s < 0 \<or> 11 < s \<or> e < 0 \<or> 11 < e)"
    unfolding newMonthBetweenCond_def raises_if by (rule refl)
  show "raises (newDateBetweenCond sd ed) =
     (month sd < 0 \<or> 11 < month sd \<or> month ed < 0 \<or> 11 < month ed \<or>
      day sd < 1 \<or> 31 < day sd \<or> day ed < 1 \<or> 31 < day ed)"
    unfolding newDateBetweenCond_def raises_if by (rule refl)
  show "raises (newDayBetweenCond ds de) = (ds < 1 \<or> 31 < ds \<or> de < 1 \<or> 31 < de)"
    unfolding newDayBetweenCond_def raises_if by (rule refl)
  show "raises (newWeekDay n) = (n < 0 \<or> 6 < n)"
    unfolding newWeekDay_def raises_if by (rule refl)
  show "raises (newTimeSpanCond dur) =
     ((orZero (months dur) < 0 \<or> orZero (days dur) < 0 \<or> orZero (hours dur) < 0 \<or>
       orZero (minutes dur) < 0 \<or> orZero (seconds dur) < 0) \<or>
      (orZero (months dur) = 0 \<and> orZero (days dur) = 0 \<and> orZero (hours dur) = 0 \<and>
       orZero (minutes dur) = 0 \<and> orZero (seconds dur) = 0))"
    unfolding newTimeSpanCond_def Let_def by (simp add: raises_def)
  show "raises (newOrCond cs) = (cs = [])"
    unfolding newOrCond_def raises_if by simp
  show "raises (newAndCond cs) = (cs = [])"
    unfolding newAndCond_def raises_if by simp
qed

theorem C9_witness:
  "raises (newWeekDay 7) \<and> \<not> raises (newWeekDay 6) \<and>
   raises (newMonthBetweenCond 0 12) \<and> \<not> raises (newMonthBetweenCond 10 1) \<and>
   raises (newDayBetweenCond 0 5) \<and> \<not> raises (newDayBetweenCond 31 31) \<and>
   raises (newDateBetweenCond \<lparr>month = 11, day = 32\<rparr> \<lparr>month = 1, day = 5\<rparr>) \<and>
   \<not> raises (newDateBetweenCond \<lparr>month = 11, day = 10\<rparr> \<lparr>month = 1, day = 5\<rparr>) \<and>
   raises (newTimeSpanCond \<lparr>months = None, days = None, hours = Some 0, minutes = None, seconds = None\<rparr>) \<and>
   raises (newTimeSpanCond \<lparr>months = Some 1, days = None, hours = Some (- 1), minutes = None, seconds = None\<rparr>) \<and>
   \<not> raises (newTimeSpanCond \<lparr>months = None, days = None, hours = Some 3, minutes = None, seconds = None\<rparr>) \<and>
   raises (newOrCond []) \<and> \<not> raises (newOrCond [WeekDay 1]) \<and>
   raises (newAndCond []) \<and> \<not> raises (newAndCond [WeekDay 1])"
  using C9_constructor_errors[of 0 12 "\<lparr>month = 11, day = 32\<rparr>" "\<lparr>month = 1, day = 5\<rparr>" 0 5 7
      "\<lparr>months = None, days = None, hours = Some 0, minutes = None, seconds = None\<rparr>" "[]"]
    C9_constructor_errors[of 10 1 "\<lparr>month = 11, day = 10\<rparr>" "\<lparr>month = 1, day = 5\<rparr>" 31 31 6
      "\<lparr>months = None, days = None, hours = Some 3, minutes = None, seconds = None\<rparr>" "[WeekDay 1]"]
    C9_constructor_errors[of 10 1 "\<lparr>month = 11, day = 10\<rparr>" "\<lparr>month = 1, day = 5\<rparr>" 31 31 6
      "\<lparr>months = Some 1, days = None, hours = Some (- 1), minutes = None, seconds = None\<rparr>" "[WeekDay 1]"]
  by (simp add: orZero_def)

subsection \<open>Claim C7\<close>

text \<open>
  Claim C7.  For every instant \<open>t\<close> and weekday index \<open>n\<close> from 0 to 6,
  \<open>WeekDay(n).lastActiveRange(t)\<close> is the full day that starts at the start of the day
  of \<open>t\<close> moved back by \<open>d = (getDay t - n + 7) mod 7\<close> days, and
  \<open>WeekDay(n).nextRanges(t)\<close> is the full day that starts at the start of the day of
  \<open>t\<close> moved forward by \<open>d'\<close> days, \<open>d' = n - getDay t\<close> plus 7 when it is not
  positive.  In particular WeekDay(0) at Sunday 2024-03-03 00:00 gives the same day, and
  its next range at Monday 2024-03-04 00:00 is Sunday 2024-03-10.
\<close>

theorem C7_WeekDay_ranges:
  "(0 \<le> n \<and> n \<le> 6 \<longrightarrow>
      WeekDay_lastActiveRange n t =
        (let d = (getDay t - n + 7) mod 7; s = startOfDay (addDays t (- d))
         in \<lparr>start = s, endDate = Some (addDays s 1)\<rparr>) \<and>
      WeekDay_nextRanges n t =
        (let d0 = n - getDay t; d = (if d0 \<le> 0 then d0 + 7 else d0);
             s = startOfDay (addDays t d)
         in \<lparr>start = s, endDate = Some (addDays s 1)\<rparr>)) \<and>
   WeekDay_lastActiveRange 0 (atTime 2024 3 3 0 0) =
     \<lparr>start = atTime 2024 3 3 0 0, endDate = Some (atTime 2024 3 4 0 0)\<rparr> \<and>
   WeekDay_nextRanges 0 (atTime 2024 3 4 0 0) =
     \<lparr>start = atTime 2024 3 10 0 0, endDate = Some (atTime 2024 3 11 0 0)\<rparr>"
proof -
  have "WeekDay_lastActiveRange 0 (atTime 2024 3 3 0 0) =
     \<lparr>start = atTime 2024 3 3 0 0, endDate = Some (atTime 2024 3 4 0 0)\<rparr>"
    by code_simp
  moreover have "WeekDay_nextRanges 0 (atTime 2024 3 4 0 0) =
     \<lparr>start = atTime 2024 3 10 0 0, endDate = Some (atTime 2024 3 11 0 0)\<rparr>"
    by code_simp
  ultimately show ?thesis using WeekDay_ranges[of n t] by blast
qed

text \<open>
  The general statement at Wednesday 2025-06-18 10:00 and \<open>n = 1\<close> (Monday): two days
  back, and five days forward.
\<close>

theorem C7_witness:
  "getDay (atTime 2025 6 18 10 0) = 3 \<and>
   WeekDay_lastActiveRange 1 (atTime 2025 6 18 10 0) =
     \<lparr>start = atTime 2025 6 16 0 0, endDate = Some (atTime 2025 6 17 0 0)\<rparr> \<and>
   WeekDay_nextRanges 1 (atTime 2025 6 18 10 0) =
     \<lparr>start = atTime 2025 6 23 0 0, endDate = Some (atTime 2025 6 24 0 0)\<rparr>"
proof -
  have g: "getDay (atTime 2025 6 18 10 0) = 3" by code_simp
  have a: "startOfDay (addDays (atTime 2025 6 18 10 0) (- 2)) = atTime 2025 6 16 0 0"
    "addDays (atTime 2025 6 16 0 0) 1 = atTime 2025 6 17 0 0"
    "startOfDay (addDays (atTime 2025 6 18 10 0) 5) = atTime 2025 6 23 0 0"
    "addDays (atTime 2025 6 23 0 0) 1 = atTime 2025 6 24 0 0"
    by code_simp+
  have h: "(0::int) \<le> 1 \<and> (1::int) \<le> 6" by simp
  from C7_WeekDay_ranges[of 1 "atTime 2025 6 18 10 0"] h
  show ?thesis unfolding g by (simp add: a)
qed

subsection \<open>Claim C6\<close>

text \<open>
  Claim C6.  TimeBetweenCond(22:00, 02:00, exclusive) stores the end 01:59; its last
  active range at 2024-03-15 23:00 is [2024-03-15 22:00, 2024-03-16 02:00), and its next
  range at 2024-03-15 03:00 is that same range: the stored end plus one minute, on the
  next day because the start is after the end.
\<close>

theorem C6_overnight_TimeBetween:
  "TimeBetweenCond_range \<lparr>dtStart = \<lparr>hour = 22, minute = 0\<rparr>, dtEnd = \<lparr>hour = 2, minute = 0\<rparr>\<rparr> False
     = \<lparr>dtStart = \<lparr>hour = 22, minute = 0\<rparr>, dtEnd = \<lparr>hour = 1, minute = 59\<rparr>\<rparr> \<and>
   TimeBetweenCond_lastActiveRange
     (TimeBetweenCond_range \<lparr>dtStart = \<lparr>hour = 22, minute = 0\<rparr>, dtEnd = \<lparr>hour = 2, minute = 0\<rparr>\<rparr> False)
     (atTime 2024 3 15 23 0)
     = \<lparr>start = atTime 2024 3 15 22 0, endDate = Some (atTime 2024 3 16 2 0)\<rparr> \<and>
   processRanges (\<lambda>x. x)
     [TimeBetweenCond_nextRanges
        (TimeBetweenCond_range \<lparr>dtStart = \<lparr>hour = 22, minute = 0\<rparr>, dtEnd = \<lparr>hour = 2, minute = 0\<rparr>\<rparr> False)
        (atTime 2024 3 15 3 0)]
     = [\<lparr>start = atTime 2024 3 15 22 0, endDate = Some (atTime 2024 3 16 2 0)\<rparr>]"
  by code_simp

section \<open>Verification: time spans and fresh ranges\<close>




















lemma newRange_eq:
  "newRange r h =
     (case endDate r of
        None \<Rightarrow> (\<lparr>start = length h, endDate = None\<rparr>, h @ [start r])
      | Some e \<Rightarrow> (\<lparr>start = length h, endDate = Some (Suc (length h))\<rparr>, h @ [start r, e]))"
  by (simp add: newRange_def newDate_def split: option.splits)






subsection \<open>Claim C10\<close>



section \<open>Verification: queries on the store\<close>

text \<open>
  Rules that evaluate a query step by step: the values of the leaf conditions at the
  instants of a run are computed first, and the loops of the combinators are unfolded
  on them.
\<close>

lemma oneMsEarlier_eq: "oneMsEarlier a h = h[a := h ! a - 1]"
  unfolding oneMsEarlier_def setMilliseconds_eq getMilliseconds_def by simp

lemma processRanges_Nil: "processRanges gt [] = []"
  by (simp add: processRanges_def)

lemma processRanges_single: "processRanges gt [r] = [r]"
  by (simp add: processRanges_def sortByStart_def mergeSortedRanges_def)

lemma fresh_lastActiveRange_eq:
  "lastActiveRange (freshCond lar nr) a h =
     (case endDate (lar (h ! a)) of
        None \<Rightarrow> Some (Some \<lparr>start = length h, endDate = None\<rparr>, h @ [start (lar (h ! a))])
      | Some e \<Rightarrow> Some (Some \<lparr>start = length h, endDate = Some (Suc (length h))\<rparr>,
                         h @ [start (lar (h ! a)), e]))"
  by (simp add: freshCond_def freshLastActiveRange_def newRange_eq split: option.splits)

lemma fresh_nextRanges_eq:
  "nextRanges (freshCond lar nr) a h =
     (case endDate (nr (h ! a)) of
        None \<Rightarrow> Some ([\<lparr>start = length h, endDate = None\<rparr>], h @ [start (nr (h ! a))])
      | Some e \<Rightarrow> Some ([\<lparr>start = length h, endDate = Some (Suc (length h))\<rparr>],
                         h @ [start (nr (h ! a)), e]))"
  by (simp add: freshCond_def freshNextRanges_def newRange_eq processRanges_single split: option.splits)

lemmas eval_ranges = processRanges_Nil processRanges_single unionImpl_def mergeSortedRanges_def
  sortByStart_def firstDate_def lastDate_def lastRange_def rangeTimes_def inDateRangeImpl_def
  getTime_def newDate_def newRange_eq oneMsEarlier_eq inRange_def

lemmas eval_fresh = fresh_lastActiveRange_eq fresh_nextRanges_eq

lemmas eval_and = AndCond_obj_def AndCond_lastActiveRange_def AndCond_refStart_def
  AndCond_lastActiveRange_while.simps AndCond_nextRanges_def AndCond_nextRanges_while.simps

lemmas eval_more = newRanges.simps TimeDeltaCond_obj_def TimeDeltaCond_lastActiveRange_def
  TimeDeltaCond_nextRanges_def OrCond_obj_def OrCond_lastActiveRange_def OrCond_nextRanges_def
  NthCond_obj_def NthCond_lastActiveRange_def NthCond_nextRanges_def NthCond_seek_def
  NthCond_lastActiveRange_while.simps NthCond_nextRanges_while.simps
  FirstAfterStartCond_obj_def FirstAfterStartCond_lastActiveRange_def
  FirstAfterStartCond_nextRanges_def FirstAfterStartCond_nextRanges_rest_def

lemma unionImpl_Nil: "unionImpl gt [] ys = ys"
  by (simp add: unionImpl_def)

lemma OrCond_single:
  "lastActiveRange (obj (OrCond [c])) date h = lastActiveRange (obj c) date h"
proof (cases "lastActiveRange (obj c) date h")
  case None
  then show ?thesis by (simp add: OrCond_obj_def OrCond_lastActiveRange_def)
next
  case (Some p)
  obtain r h' where p: "p = (r, h')" by (cases p)
  show ?thesis using Some unfolding p
    by (cases r) (simp_all add: OrCond_obj_def OrCond_lastActiveRange_def unionImpl_Nil)
qed

subsection \<open>Claim C2\<close>

text \<open>
  Claim C2.  The condition is \<open>AndCond([WeekDay(1), TimeBetweenCond(09:00, 17:00,
  exclusive)])\<close>, Monday being week day 1.  \<open>lastActiveRange\<close> at Wednesday 2025-06-18
  10:00 returns [2025-06-16 09:00, 2025-06-16 17:00), and at Monday 2025-06-16 08:00 it
  returns the work hours of the Monday before, [2025-06-09 09:00, 2025-06-09 17:00).
  Both queries run the three loops of \<open>AndCond.lastActiveRange\<close> on an empty store.
\<close>

theorem C2_AndCond_scenario:
  "getDay (atTime 2025 6 18 10 0) = 3 \<and> getDay (atTime 2025 6 16 8 0) = 1 \<and>
   lastActiveRangeAt
     (AndCond [WeekDay 1,
        newTimeBetweenCond \<lparr>dtStart = \<lparr>hour = 9, minute = 0\<rparr>, dtEnd = \<lparr>hour = 17, minute = 0\<rparr>\<rparr> False])
     (atTime 2025 6 18 10 0) []
     = Some (Some \<lparr>start = atTime 2025 6 16 9 0, endDate = Some (atTime 2025 6 16 17 0)\<rparr>) \<and>
   lastActiveRangeAt
     (AndCond [WeekDay 1,
        newTimeBetweenCond \<lparr>dtStart = \<lparr>hour = 9, minute = 0\<rparr>, dtEnd = \<lparr>hour = 17, minute = 0\<rparr>\<rparr> False])
     (atTime 2025 6 16 8 0) []
     = Some (Some \<lparr>start = atTime 2025 6 9 9 0, endDate = Some (atTime 2025 6 9 17 0)\<rparr>)"
proof -
  have t: "atTime 2025 6 18 10 0 = 1750240800000" "atTime 2025 6 16 8 0 = 1750060800000"
    "atTime 2025 6 16 9 0 = 1750064400000" "atTime 2025 6 16 17 0 = 1750093200000"
    "atTime 2025 6 9 9 0 = 1749459600000" "atTime 2025 6 9 17 0 = 1749488400000"
    by code_simp+
  have d: "getDay 1750240800000 = 3" "getDay 1750060800000 = 1"
    by code_simp+
  have lf:
    "WeekDay_lastActiveRange 1 1749978000000 = \<lparr>start = 1749427200000, endDate = Some
      1749513600000\<rparr>"
    "WeekDay_lastActiveRange 1 1750032000000 = \<lparr>start = 1750032000000, endDate = Some
      1750118400000\<rparr>"
    "WeekDay_lastActiveRange 1 1750240800000 = \<lparr>start = 1750032000000, endDate = Some
      1750118400000\<rparr>"
    "WeekDay_nextRanges 1 1749427199999 = \<lparr>start = 1749427200000, endDate = Some
      1749513600000\<rparr>"
    "WeekDay_nextRanges 1 1749513600000 = \<lparr>start = 1750032000000, endDate = Some
      1750118400000\<rparr>"
    "WeekDay_nextRanges 1 1750118400000 = \<lparr>start = 1750636800000, endDate = Some
      1750723200000\<rparr>"
    "TimeBetweenCond_lastActiveRange \<lparr>dtStart = \<lparr>hour = 9, minute = 0\<rparr>,
      dtEnd = \<lparr>hour = 16, minute = 59\<rparr>\<rparr> 1749978000000 = \<lparr>start =
      1749978000000, endDate = Some 1750006800000\<rparr>"
    "TimeBetweenCond_lastActiveRange \<lparr>dtStart = \<lparr>hour = 9, minute = 0\<rparr>,
      dtEnd = \<lparr>hour = 16, minute = 59\<rparr>\<rparr> 1750032000000 = \<lparr>start =
      1749978000000, endDate = Some 1750006800000\<rparr>"
    "TimeBetweenCond_lastActiveRange \<lparr>dtStart = \<lparr>hour = 9, minute = 0\<rparr>,
      dtEnd = \<lparr>hour = 16, minute = 59\<rparr>\<rparr> 1750240800000 = \<lparr>start =
      1750237200000, endDate = Some 1750266000000\<rparr>"
    "TimeBetweenCond_nextRanges \<lparr>dtStart = \<lparr>hour = 9, minute = 0\<rparr>, dtEnd =
      \<lparr>hour = 16, minute = 59\<rparr>\<rparr> 1749977999999 = \<lparr>start =
      1749978000000, endDate = Some 1750006800000\<rparr>"
    "TimeBetweenCond_nextRanges \<lparr>dtStart = \<lparr>hour = 9, minute = 0\<rparr>, dtEnd =
      \<lparr>hour = 16, minute = 59\<rparr>\<rparr> 1750006800000 = \<lparr>start =
      1750064400000, endDate = Some 1750093200000\<rparr>"
    "TimeBetweenCond_nextRanges \<lparr>dtStart = \<lparr>hour = 9, minute = 0\<rparr>, dtEnd =
      \<lparr>hour = 16, minute = 59\<rparr>\<rparr> 1750093200000 = \<lparr>start =
      1750150800000, endDate = Some 1750179600000\<rparr>"
    "TimeBetweenCond_nextRanges \<lparr>dtStart = \<lparr>hour = 9, minute = 0\<rparr>, dtEnd =
      \<lparr>hour = 16, minute = 59\<rparr>\<rparr> 1750179600000 = \<lparr>start =
      1750237200000, endDate = Some 1750266000000\<rparr>"
    "TimeBetweenCond_nextRanges \<lparr>dtStart = \<lparr>hour = 9, minute = 0\<rparr>, dtEnd =
      \<lparr>hour = 16, minute = 59\<rparr>\<rparr> 1750266000000 = \<lparr>start =
      1750323600000, endDate = Some 1750352400000\<rparr>"
    "WeekDay_lastActiveRange 1 1749427200000 = \<lparr>start = 1749427200000, endDate = Some
      1749513600000\<rparr>"
    "WeekDay_lastActiveRange 1 1750060800000 = \<lparr>start = 1750032000000, endDate = Some
      1750118400000\<rparr>"
    "TimeBetweenCond_lastActiveRange \<lparr>dtStart = \<lparr>hour = 9, minute = 0\<rparr>,
      dtEnd = \<lparr>hour = 16, minute = 59\<rparr>\<rparr> 1749427200000 = \<lparr>start =
      1749373200000, endDate = Some 1749402000000\<rparr>"
    "TimeBetweenCond_lastActiveRange \<lparr>dtStart = \<lparr>hour = 9, minute = 0\<rparr>,
      dtEnd = \<lparr>hour = 16, minute = 59\<rparr>\<rparr> 1750060800000 = \<lparr>start =
      1749978000000, endDate = Some 1750006800000\<rparr>"
    "TimeBetweenCond_nextRanges \<lparr>dtStart = \<lparr>hour = 9, minute = 0\<rparr>, dtEnd =
      \<lparr>hour = 16, minute = 59\<rparr>\<rparr> 1749373199999 = \<lparr>start =
      1749373200000, endDate = Some 1749402000000\<rparr>"
    "TimeBetweenCond_nextRanges \<lparr>dtStart = \<lparr>hour = 9, minute = 0\<rparr>, dtEnd =
      \<lparr>hour = 16, minute = 59\<rparr>\<rparr> 1749402000000 = \<lparr>start =
      1749459600000, endDate = Some 1749488400000\<rparr>"
    "TimeBetweenCond_nextRanges \<lparr>dtStart = \<lparr>hour = 9, minute = 0\<rparr>, dtEnd =
      \<lparr>hour = 16, minute = 59\<rparr>\<rparr> 1749488400000 = \<lparr>start =
      1749546000000, endDate = Some 1749574800000\<rparr>"
    "TimeBetweenCond_nextRanges \<lparr>dtStart = \<lparr>hour = 9, minute = 0\<rparr>, dtEnd =
      \<lparr>hour = 16, minute = 59\<rparr>\<rparr> 1749574800000 = \<lparr>start =
      1749632400000, endDate = Some 1749661200000\<rparr>"
    "TimeBetweenCond_nextRanges \<lparr>dtStart = \<lparr>hour = 9, minute = 0\<rparr>, dtEnd =
      \<lparr>hour = 16, minute = 59\<rparr>\<rparr> 1749661200000 = \<lparr>start =
      1749718800000, endDate = Some 1749747600000\<rparr>"
    "TimeBetweenCond_nextRanges \<lparr>dtStart = \<lparr>hour = 9, minute = 0\<rparr>, dtEnd =
      \<lparr>hour = 16, minute = 59\<rparr>\<rparr> 1749747600000 = \<lparr>start =
      1749805200000, endDate = Some 1749834000000\<rparr>"
    "TimeBetweenCond_nextRanges \<lparr>dtStart = \<lparr>hour = 9, minute = 0\<rparr>, dtEnd =
      \<lparr>hour = 16, minute = 59\<rparr>\<rparr> 1749834000000 = \<lparr>start =
      1749891600000, endDate = Some 1749920400000\<rparr>"
    "TimeBetweenCond_nextRanges \<lparr>dtStart = \<lparr>hour = 9, minute = 0\<rparr>, dtEnd =
      \<lparr>hour = 16, minute = 59\<rparr>\<rparr> 1749920400000 = \<lparr>start =
      1749978000000, endDate = Some 1750006800000\<rparr>"
    by code_simp+
  have a: "lastActiveRangeAt
     (AndCond [WeekDay 1,
        newTimeBetweenCond \<lparr>dtStart = \<lparr>hour = 9, minute = 0\<rparr>, dtEnd = \<lparr>hour = 17, minute = 0\<rparr>\<rparr> False])
     1750240800000 []
     = Some (Some \<lparr>start = 1750064400000, endDate = Some 1750093200000\<rparr>)"
    by (simp add: lastActiveRangeAt_def newTimeBetweenCond_def TimeBetweenCond_range_def
        eval_ranges eval_fresh eval_and lf Let_def cong: let_weak_cong prod.case_cong_weak)
  have b: "lastActiveRangeAt
     (AndCond [WeekDay 1,
        newTimeBetweenCond \<lparr>dtStart = \<lparr>hour = 9, minute = 0\<rparr>, dtEnd = \<lparr>hour = 17, minute = 0\<rparr>\<rparr> False])
     1750060800000 []
     = Some (Some \<lparr>start = 1749459600000, endDate = Some 1749488400000\<rparr>)"
    by (simp add: lastActiveRangeAt_def newTimeBetweenCond_def TimeBetweenCond_range_def
        eval_ranges eval_fresh eval_and lf Let_def cong: let_weak_cong prod.case_cong_weak)
  show ?thesis unfolding t using d a b by (intro conjI)
qed

subsection \<open>Claim C5\<close>

text \<open>
  Claim C5.  The condition is \<open>FirstAfterStartCond(WeekDay(4), TimeDeltaCond(new Date(0),
  1000), false)\<close>: the store holds the Date object of the anchor at reference 0 and the
  field \<open>validFrom\<close> of the TimeDeltaCond at reference 1, with time value 1000.  The query
  \<open>lastActiveRange(new Date(2000))\<close> returns a range that starts at 999 and has no end,
  and leaves \<open>validFrom\<close> at 999: \<open>TimeDeltaCond.lastActiveRange\<close> returns the object
  \<open>validFrom\<close> itself as the start of its range, and \<open>FirstAfterStartCond\<close> moves that
  start one millisecond back in place.  The same query on the store it leaves returns
  a range that starts at 998.  At the instant 999 the TimeDeltaCond is not in range
  before the query and is in range after it.
\<close>

theorem C5_query_mutates_validFrom:
  "newTimeDeltaCond 0 1000 [0] = (TimeDeltaCond 1000 1, [0, 1000]) \<and>
   lastActiveRangeAt (FirstAfterStartCond (WeekDay 4) (TimeDeltaCond 1000 1) False) 2000 [0, 1000]
     = Some (Some \<lparr>start = 999, endDate = None\<rparr>) \<and>
   heapAfterLastActiveRange (FirstAfterStartCond (WeekDay 4) (TimeDeltaCond 1000 1) False) 2000 [0, 1000]
     = Some [0, 999, 2000, 0, 86400000] \<and>
   lastActiveRangeAt (FirstAfterStartCond (WeekDay 4) (TimeDeltaCond 1000 1) False) 2000
       [0, 999, 2000, 0, 86400000]
     = Some (Some \<lparr>start = 998, endDate = None\<rparr>) \<and>
   inRangeAt (TimeDeltaCond 1000 1) 999 [0, 1000] = Some False \<and>
   inRangeAt (TimeDeltaCond 1000 1) 999 [0, 999, 2000, 0, 86400000] = Some True"
proof -
  let ?c = "FirstAfterStartCond (WeekDay 4) (TimeDeltaCond 1000 1) False"
  have w: "WeekDay_lastActiveRange 4 999 = \<lparr>start = 0, endDate = Some 86400000\<rparr>"
          "WeekDay_lastActiveRange 4 998 = \<lparr>start = 0, endDate = Some 86400000\<rparr>"
    by code_simp+
  note defs = FirstAfterStartCond_obj_def FirstAfterStartCond_lastActiveRange_def
      TimeDeltaCond_obj_def TimeDeltaCond_lastActiveRange_def TimeDeltaCond_nextRanges_def
      inRange_def oneMsEarlier_eq fresh_lastActiveRange_eq w processRanges_def
      mergeSortedRanges_def sortByStart_def newDate_def rangeTimes_def getTime_def
      inDateRangeImpl_def
  have a: "newTimeDeltaCond 0 1000 [0] = (TimeDeltaCond 1000 1, [0, 1000])"
    by (simp add: newTimeDeltaCond_def newDate_def)
  have b: "lastActiveRangeAt ?c 2000 [0, 1000] = Some (Some \<lparr>start = 999, endDate = None\<rparr>)"
    by (simp add: lastActiveRangeAt_def defs)
  have c: "heapAfterLastActiveRange ?c 2000 [0, 1000] = Some [0, 999, 2000, 0, 86400000]"
    by (simp add: heapAfterLastActiveRange_def defs)
  have d: "lastActiveRangeAt ?c 2000 [0, 999, 2000, 0, 86400000]
     = Some (Some \<lparr>start = 998, endDate = None\<rparr>)"
    by (simp add: lastActiveRangeAt_def defs)
  have e: "inRangeAt (TimeDeltaCond 1000 1) 999 [0, 1000] = Some False"
    by (simp add: inRangeAt_def defs)
  have f: "inRangeAt (TimeDeltaCond 1000 1) 999 [0, 999, 2000, 0, 86400000] = Some True"
    by (simp add: inRangeAt_def defs)
  show ?thesis using a b c d e f by (intro conjI)
qed

subsection \<open>Claim C3\<close>

text \<open>
  Claim C3.  For every condition \<open>C\<close>, every Date object and every store,
  \<open>OrCond([C]).lastActiveRange\<close> returns what \<open>C.lastActiveRange\<close> returns and leaves the
  same store.  For \<open>AndCond\<close> the identity fails at
  \<open>C = TimeDeltaCond(new Date(0), 1000)\<close> (\<open>validFrom\<close> is the Date object at reference 1
  of the store) and the instant 2000: \<open>C.lastActiveRange\<close> returns the range from 1000
  with no end and \<open>C\<close> is in range, while \<open>AndCond([C]).lastActiveRange\<close> returns no range,
  \<open>AndCond([C])\<close> is not in range, and \<open>validFrom\<close> is left at 999.
\<close>

theorem C3_single_child:
  "lastActiveRange (obj (OrCond [C])) date h = lastActiveRange (obj C) date h \<and>
   lastActiveRangeAt (OrCond [C]) t h = lastActiveRangeAt C t h \<and>
   lastActiveRangeAt (TimeDeltaCond 1000 1) 2000 [0, 1000]
     = Some (Some \<lparr>start = 1000, endDate = None\<rparr>) \<and>
   lastActiveRangeAt (AndCond [TimeDeltaCond 1000 1]) 2000 [0, 1000] = Some None \<and>
   inRangeAt (TimeDeltaCond 1000 1) 2000 [0, 1000] = Some True \<and>
   inRangeAt (AndCond [TimeDeltaCond 1000 1]) 2000 [0, 1000] = Some False \<and>
   heapAfterLastActiveRange (AndCond [TimeDeltaCond 1000 1]) 2000 [0, 1000]
     = Some [0, 999, 2000, 1000]"
proof -
  note defs = eval_ranges eval_and eval_more Let_def
  have a: "lastActiveRangeAt (OrCond [C]) t h = lastActiveRangeAt C t h"
    unfolding lastActiveRangeAt_def OrCond_single ..
  have b: "lastActiveRangeAt (TimeDeltaCond 1000 1) 2000 [0, 1000]
     = Some (Some \<lparr>start = 1000, endDate = None\<rparr>)"
    by (simp add: lastActiveRangeAt_def defs)
  have c: "lastActiveRangeAt (AndCond [TimeDeltaCond 1000 1]) 2000 [0, 1000] = Some None"
    by (simp add: lastActiveRangeAt_def defs cong: let_weak_cong prod.case_cong_weak)
  have d: "inRangeAt (TimeDeltaCond 1000 1) 2000 [0, 1000] = Some True"
    by (simp add: inRangeAt_def defs)
  have e: "inRangeAt (AndCond [TimeDeltaCond 1000 1]) 2000 [0, 1000] = Some False"
    by (simp add: inRangeAt_def defs cong: let_weak_cong prod.case_cong_weak)
  have f: "heapAfterLastActiveRange (AndCond [TimeDeltaCond 1000 1]) 2000 [0, 1000]
     = Some [0, 999, 2000, 1000]"
    by (simp add: heapAfterLastActiveRange_def defs cong: let_weak_cong prod.case_cong_weak)
  show ?thesis using OrCond_single[of C date h] a b c d e f by (intro conjI)
qed

end
